theory Spec2Isabelle
  imports Complex_Main
begin

section \<open>Tensors\<close>

text \<open>
  The training script \<open>mappo_mpe.py\<close> works on torch and numpy arrays of floats. A
  one-dimensional array over the slots is a list of reals, a \<open>(num_steps, num_envs)\<close>
  table is a list of rows. Floating-point numbers are read as real numbers, so the
  statements about tensors below are about exact arithmetic; rounding is not modelled.
  Only the epoch loop takes its float operations as parameters. The boolean done flags
  are stored by the script as floats \<open>0.0\<close> and \<open>1.0\<close> and are reals here.
\<close>

type_synonym vec = "real list"
type_synonym mat = "real list list"

definition vadd :: "vec \<Rightarrow> vec \<Rightarrow> vec" where
  "vadd xs ys = map2 (+) xs ys"

definition vsub :: "vec \<Rightarrow> vec \<Rightarrow> vec" where
  "vsub xs ys = map2 (-) xs ys"

definition vmul :: "vec \<Rightarrow> vec \<Rightarrow> vec" where
  "vmul xs ys = map2 (*) xs ys"

definition smul :: "real \<Rightarrow> vec \<Rightarrow> vec" where
  "smul c xs = map (\<lambda>x. c * x) xs"

definition one_minus :: "vec \<Rightarrow> vec" where
  "one_minus xs = map (\<lambda>x. 1 - x) xs"

definition madd :: "mat \<Rightarrow> mat \<Rightarrow> mat" where
  "madd a b = map2 vadd a b"

definition mean_of :: "vec \<Rightarrow> real" where
  "mean_of xs = sum_list xs / real (length xs)"

definition zeros :: "nat \<Rightarrow> nat \<Rightarrow> mat" where
  "zeros T N = replicate T (replicate N 0)"

text \<open>
  A rollout buffer of \<open>T\<close> steps and \<open>N\<close> slots, as allocated by
  \<open>torch.zeros((args.num_steps, args.num_envs))\<close>: every table has \<open>T\<close> rows of
  \<open>N\<close> entries.
\<close>

definition shaped :: "nat \<Rightarrow> nat \<Rightarrow> mat \<Rightarrow> bool" where
  "shaped T N m = (length m = T \<and> list_all (\<lambda>row. length row = N) m)"

section \<open>Configuration\<close>

text \<open>
  The fields of the dataclass \<open>Args\<close> that the training loop reads in the parts modelled
  here. Counts are natural numbers; \<open>minibatch_size\<close>, the quotient
  \<open>batch_size // num_minibatches\<close>, is an integer, zero or negative for some settings
  of \<open>num_minibatches\<close>; \<open>target_kl\<close> is \<open>None\<close> or a float.
\<close>

record Args =
  use_huber_loss :: bool
  huber_delta :: real
  use_value_normalization :: bool
  ewa_weigth :: real
  num_envs :: nat
  num_steps :: nat
  gamma :: real
  gae_lambda :: real
  update_epochs :: nat
  clip_coef :: real
  clip_vloss :: bool
  target_kl :: "real option"
  batch_size :: nat
  minibatch_size :: int

text \<open>
  The defaults of the dataclass, with \<open>num_envs\<close>, \<open>batch_size\<close> and
  \<open>minibatch_size\<close> as the script fills them in for one agent per environment and
  \<open>num_minibatches = 1\<close>.
\<close>

definition default_args :: Args where
  "default_args =
     \<lparr> use_huber_loss = True, huber_delta = 10, use_value_normalization = True,
       ewa_weigth = 0.999999, num_envs = 128, num_steps = 25, gamma = 0.99,
       gae_lambda = 0.95, update_epochs = 15, clip_coef = 0.2, clip_vloss = True,
       target_kl = None, batch_size = 128 * 25, minibatch_size = 128 * 25 \<rparr>"

section \<open>Generalised advantage estimation\<close>

text \<open>
  One pass of the body of \<open>for t in reversed(range(args.num_steps))\<close>. The state of the
  loop is the table \<open>advantages\<close> and the carry \<open>lastgaelam\<close>. The reads
  \<open>dones[t + 1]\<close> and \<open>values[t + 1]\<close> happen only for \<open>t < num_steps - 1\<close>, inside
  the table.
\<close>

definition gae_body ::
  "Args \<Rightarrow> mat \<Rightarrow> mat \<Rightarrow> mat \<Rightarrow> vec \<Rightarrow> vec \<Rightarrow> nat \<Rightarrow> mat \<times> vec \<Rightarrow> mat \<times> vec"
where
  "gae_body args rewards values dones next_value next_done t st =
     (let advantages = fst st;
          lastgaelam = snd st;
          nextnonterminal =
            (if t = num_steps args - 1 then one_minus next_done else one_minus (dones ! (t + 1)));
          nextvalues = (if t = num_steps args - 1 then next_value else values ! (t + 1));
          delta = vsub (vadd (rewards ! t) (vmul (smul (gamma args) nextvalues) nextnonterminal))
                       (values ! t);
          lastgaelam' =
            vadd delta (vmul (smul (gamma args * gae_lambda args) nextnonterminal) lastgaelam)
      in (advantages[t := lastgaelam'], lastgaelam'))"

text \<open>
  The whole loop. \<open>advantages\<close> starts as \<open>torch.zeros_like(rewards)\<close>; the scalar
  \<open>lastgaelam = 0\<close> is broadcast over the slots by the first multiplication, which is
  the vector of \<open>num_envs\<close> zeros.
\<close>

definition gae_loop :: "Args \<Rightarrow> mat \<Rightarrow> mat \<Rightarrow> mat \<Rightarrow> vec \<Rightarrow> vec \<Rightarrow> mat \<times> vec" where
  "gae_loop args rewards values dones next_value next_done =
     fold (gae_body args rewards values dones next_value next_done)
          (rev [0..<num_steps args])
          (zeros (num_steps args) (num_envs args), replicate (num_envs args) 0)"

definition gae_advantages :: "Args \<Rightarrow> mat \<Rightarrow> mat \<Rightarrow> mat \<Rightarrow> vec \<Rightarrow> vec \<Rightarrow> mat" where
  "gae_advantages args rewards values dones next_value next_done =
     fst (gae_loop args rewards values dones next_value next_done)"

text \<open>\<open>returns = advantages + values\<close>\<close>

definition gae_returns :: "Args \<Rightarrow> mat \<Rightarrow> mat \<Rightarrow> mat \<Rightarrow> vec \<Rightarrow> vec \<Rightarrow> mat" where
  "gae_returns args rewards values dones next_value next_done =
     madd (gae_advantages args rewards values dones next_value next_done) values"

text \<open>
  The quantities the recursion of the specification names, per step \<open>t\<close> and slot
  \<open>s\<close>: the done flag and the value that follow step \<open>t\<close>, and the
  temporal-difference error.
\<close>

definition nextdone_at :: "Args \<Rightarrow> mat \<Rightarrow> vec \<Rightarrow> nat \<Rightarrow> nat \<Rightarrow> real" where
  "nextdone_at args dones next_done t s =
     (if t = num_steps args - 1 then next_done ! s else dones ! (t + 1) ! s)"

definition nextvalue_at :: "Args \<Rightarrow> mat \<Rightarrow> vec \<Rightarrow> nat \<Rightarrow> nat \<Rightarrow> real" where
  "nextvalue_at args values next_value t s =
     (if t = num_steps args - 1 then next_value ! s else values ! (t + 1) ! s)"

definition td_delta :: "Args \<Rightarrow> mat \<Rightarrow> mat \<Rightarrow> mat \<Rightarrow> vec \<Rightarrow> vec \<Rightarrow> nat \<Rightarrow> nat \<Rightarrow> real" where
  "td_delta args rewards values dones next_value next_done t s =
     rewards ! t ! s
       + gamma args * nextvalue_at args values next_value t s
           * (1 - nextdone_at args dones next_done t s)
       - values ! t ! s"

text \<open>
  The state of the loop once it has handled the steps \<open>k\<close> to \<open>num_steps - 1\<close>.
\<close>

definition gae_from :: "Args \<Rightarrow> mat \<Rightarrow> mat \<Rightarrow> mat \<Rightarrow> vec \<Rightarrow> vec \<Rightarrow> nat \<Rightarrow> mat \<times> vec" where
  "gae_from args rewards values dones next_value next_done k =
     foldr (gae_body args rewards values dones next_value next_done)
          [k..<num_steps args]
          (zeros (num_steps args) (num_envs args), replicate (num_envs args) 0)"

text \<open>
  The scenario of the specification: one slot, two steps, the default \<open>gamma = 0.99\<close>
  and \<open>gae_lambda = 0.95\<close>.
\<close>

definition scenario_args :: Args where
  "scenario_args = default_args\<lparr> num_envs := 1, num_steps := 2 \<rparr>"

text \<open>
  The discounted return-to-go of the specification's words: the rewards from step \<open>t\<close>
  on, discounted by \<open>gamma\<close>, cut where the following done flag is set, and
  bootstrapped with the value \<open>V_T\<close> of the state after the last step.
\<close>

function discounted_return :: "Args \<Rightarrow> mat \<Rightarrow> mat \<Rightarrow> vec \<Rightarrow> vec \<Rightarrow> nat \<Rightarrow> nat \<Rightarrow> real" where
  "discounted_return args rewards dones next_value next_done t s =
     (if t < num_steps args
      then rewards ! t ! s
             + gamma args * (1 - nextdone_at args dones next_done t s)
                 * discounted_return args rewards dones next_value next_done (Suc t) s
      else next_value ! s)"
  by pat_completeness auto
termination
  by (relation "measure (\<lambda>(args, rewards, dones, next_value, next_done, t, s). num_steps args - t)")
     auto

declare discounted_return.simps [simp del]

section \<open>Return normaliser\<close>

text \<open>
  The six variables of the value normaliser: three accumulators and the three values
  derived from them, which the script recomputes after every change of the accumulators.
  They are tensors of shape \<open>(1,)\<close>, here scalars.
\<close>

record normalizer =
  running_mean :: real
  running_mean_sq :: real
  debiasing_term :: real
  mean :: real
  mean_sq :: real
  var :: real

text \<open>\<open>x.clamp(min=lo)\<close>\<close>

definition clamp_min :: "real \<Rightarrow> real \<Rightarrow> real" where
  "clamp_min x lo = max x lo"

text \<open>The divisor of \<open>mean\<close> and \<open>mean_sq\<close>: \<open>debiasing_term.clamp(min=1e-5)\<close>.\<close>

definition debias_divisor :: "real \<Rightarrow> real" where
  "debias_divisor d = clamp_min d 0.00001"

text \<open>The initial state: the three accumulators are zero.\<close>

definition normalizer_init :: normalizer where
  "normalizer_init =
     (let rm = 0; rms = 0; db = 0;
          m = rm / debias_divisor db;
          ms = rms / debias_divisor db;
          v = clamp_min (ms - m ^ 2) 0.01
      in \<lparr> running_mean = rm, running_mean_sq = rms, debiasing_term = db,
           mean = m, mean_sq = ms, var = v \<rparr>)"

text \<open>
  The update of the normaliser with the raw returns of one minibatch,
  \<open>b_returns[mb_inds]\<close>. A minibatch is never empty: the slices are taken at the
  multiples of \<open>minibatch_size\<close> below \<open>batch_size\<close>. The accumulators of the
  script are float32 tensors; here they are reals, so what the rounding of many updates
  adds up to is outside the model, while the clamps act as in the script.
\<close>

definition normalizer_update :: "Args \<Rightarrow> vec \<Rightarrow> normalizer \<Rightarrow> normalizer" where
  "normalizer_update args mb_returns nz =
     (let rm = ewa_weigth args * running_mean nz + (1 - ewa_weigth args) * mean_of mb_returns;
          rms = ewa_weigth args * running_mean_sq nz
                  + (1 - ewa_weigth args) * mean_of (map (\<lambda>x. x ^ 2) mb_returns);
          db = ewa_weigth args * debiasing_term nz + (1 - ewa_weigth args) * 1.0;
          m = rm / debias_divisor db;
          ms = rms / debias_divisor db;
          v = clamp_min (ms - m ^ 2) 0.01
      in \<lparr> running_mean = rm, running_mean_sq = rms, debiasing_term = db,
           mean = m, mean_sq = ms, var = v \<rparr>)"

text \<open>The states the normaliser reaches: any sequence of minibatch updates from the start.\<close>

definition normalizer_after :: "Args \<Rightarrow> vec list \<Rightarrow> normalizer" where
  "normalizer_after args batches = fold (normalizer_update args) batches normalizer_init"


text \<open>
  \<open>(b_returns[mb_inds] - mean) / torch.sqrt(var)\<close> and
  \<open>values * torch.sqrt(var) + mean\<close>, on one element.
\<close>

definition normalize :: "normalizer \<Rightarrow> real \<Rightarrow> real" where
  "normalize nz x = (x - mean nz) / sqrt (var nz)"

definition denormalize :: "normalizer \<Rightarrow> real \<Rightarrow> real" where
  "denormalize nz y = y * sqrt (var nz) + mean nz"

section \<open>The advantage phase of an iteration\<close>

text \<open>
  The block under \<open>torch.no_grad()\<close> after the rollout: \<open>values\<close> and the bootstrap
  value \<open>next_value\<close> are rebound to their denormalised form when value normalisation
  is on, then the loop runs on them. The result is the rebound \<open>values\<close>, the
  advantages and the returns.
\<close>

definition advantage_phase ::
  "Args \<Rightarrow> normalizer \<Rightarrow> mat \<Rightarrow> mat \<Rightarrow> mat \<Rightarrow> vec \<Rightarrow> vec \<Rightarrow> mat \<times> mat \<times> mat"
where
  "advantage_phase args nz rewards values dones next_value next_done =
     (let values' = (if use_value_normalization args
                     then map (map (denormalize nz)) values else values);
          next_value' = (if use_value_normalization args
                         then map (denormalize nz) next_value else next_value);
          advantages = gae_advantages args rewards values' dones next_value' next_done;
          returns = madd advantages values'
      in (values', advantages, returns))"

section \<open>Value loss\<close>

text \<open>
  \<open>huber_loss(e, d)\<close> on one element; \<open>a\<close> and \<open>b\<close> are the two comparison masks
  cast to float.
\<close>

definition huber_loss :: "real \<Rightarrow> real \<Rightarrow> real" where
  "huber_loss e d =
     (let a = (if \<bar>e\<bar> \<le> d then 1 else 0);
          b = (if \<bar>e\<bar> > d then 1 else 0)
      in a * e ^ 2 / 2 + b * d * (\<bar>e\<bar> - d / 2))"

text \<open>
  \<open>torch.clamp(x, lo, hi)\<close> is \<open>min(max(x, lo), hi)\<close>, which is \<open>hi\<close> when
  \<open>lo > hi\<close>.
\<close>

definition torch_clamp :: "real \<Rightarrow> real \<Rightarrow> real \<Rightarrow> real" where
  "torch_clamp x lo hi = min (max x lo) hi"

text \<open>The loss of one error: Huber, or half the square.\<close>

definition elem_loss :: "Args \<Rightarrow> real \<Rightarrow> real" where
  "elem_loss args e =
     (if use_huber_loss args then huber_loss e (huber_delta args) else 0.5 * (e ^ 2))"

text \<open>
  What the branch \<open>if args.clip_vloss\<close> computes from the new value estimates and the
  targets of a minibatch.
\<close>

record vloss =
  v_loss_unclipped :: vec
  v_clipped :: vec
  v_loss_clipped_error :: vec
  v_loss_clipped :: vec
  valueclipfrac :: real
  v_loss_max :: vec
  v_loss :: real

definition clipped_value_loss :: "Args \<Rightarrow> vec \<Rightarrow> vec \<Rightarrow> vloss" where
  "clipped_value_loss args newvalue target_values =
     (let unclipped_error = vsub newvalue target_values;
          unclipped = map (elem_loss args) unclipped_error;
          clipped_v = vadd target_values
                        (map (\<lambda>x. torch_clamp x (- clip_coef args) (clip_coef args))
                             (vsub newvalue target_values));
          clipped_error = vsub clipped_v target_values;
          clipped = map (elem_loss args) clipped_error;
          frac = mean_of (map2 (\<lambda>c u. if c > u then 1 else 0) clipped unclipped);
          mx = map2 max unclipped clipped
      in \<lparr> v_loss_unclipped = unclipped, v_clipped = clipped_v,
           v_loss_clipped_error = clipped_error, v_loss_clipped = clipped,
           valueclipfrac = frac, v_loss_max = mx, v_loss = mean_of mx \<rparr>)"

text \<open>A configuration with a negative clip coefficient.\<close>

definition negative_clip_args :: Args where
  "negative_clip_args = default_args\<lparr> clip_coef := - 0.25 \<rparr>"

section \<open>Epochs and minibatches\<close>

datatype py_error = ValueError | NameError

text \<open>
  \<open>range(0, stop, step)\<close> for a stop that is not negative: the multiples of a positive
  \<open>step\<close> below \<open>stop\<close>, nothing for a negative step, and \<open>ValueError\<close> for the
  step zero.
\<close>

definition range_step :: "nat \<Rightarrow> int \<Rightarrow> py_error + nat list" where
  "range_step stop step =
     (if step = 0 then Inl ValueError
      else if step < 0 then Inr []
      else Inr (map (\<lambda>i. i * nat step) [0..<(stop + nat step - 1) div nat step]))"

text \<open>
  The float operations the loops use on the log-ratios: the elementwise exponential and
  subtraction, the mean of a tensor, the scalar one, and the comparison of a tensor value
  with the configured threshold. They are parameters, with the floats an arbitrary type,
  so that what is proved of the loops holds for the float32 arithmetic of the script,
  rounding and not-a-number included, as it does for exact arithmetic.
\<close>

record 'f arith =
  f_exp :: "'f \<Rightarrow> 'f"
  f_sub :: "'f \<Rightarrow> 'f \<Rightarrow> 'f"
  f_mean :: "'f list \<Rightarrow> 'f"
  f_one :: 'f
  f_gt :: "'f \<Rightarrow> real \<Rightarrow> bool"

definition exact_arith :: "real arith" where
  "exact_arith = \<lparr> f_exp = exp, f_sub = (-), f_mean = mean_of, f_one = 1, f_gt = (>) \<rparr>"

text \<open>
  \<open>ratio = logratio.exp()\<close> and
  \<open>approx_kl = ((ratio - 1) - logratio).mean()\<close>.
\<close>

definition approx_kl_of :: "'f arith \<Rightarrow> 'f list \<Rightarrow> 'f" where
  "approx_kl_of ar logratio =
     (let ratio = map (f_exp ar) logratio
      in f_mean ar (map2 (f_sub ar) (map (\<lambda>r. f_sub ar r (f_one ar)) ratio) logratio))"

text \<open>
  The state of the optimisation loops. \<open>learner\<close> is everything a minibatch step
  changes (network parameters, optimiser, normaliser, random generator); \<open>approx_kl\<close>
  is the Python variable of that name, \<open>None\<close> while it is unbound; \<open>events\<close> lists,
  in order, the minibatch steps that ran in this iteration as (epoch, start, approx_kl).
\<close>

record ('p, 'f) opt_state =
  learner :: 'p
  approx_kl :: "'f option"
  events :: "(nat \<times> nat \<times> 'f) list"

text \<open>
  The inner loop \<open>for start in range(0, args.batch_size, args.minibatch_size)\<close>. The
  body of a minibatch step is the parameter \<open>mb\<close>: from the epoch, the start index and
  the learner it gives the learner after the optimiser step and \<open>logratio\<close>.
\<close>

fun minibatch_loop ::
  "'f arith \<Rightarrow> (nat \<Rightarrow> nat \<Rightarrow> 'p \<Rightarrow> 'p \<times> 'f list) \<Rightarrow> nat \<Rightarrow> nat list
     \<Rightarrow> ('p, 'f) opt_state \<Rightarrow> ('p, 'f) opt_state"
where
  "minibatch_loop ar mb epoch [] st = st"
| "minibatch_loop ar mb epoch (start # rest) st =
     (let (p, logratio) = mb epoch start (learner st);
          kl = approx_kl_of ar logratio
      in minibatch_loop ar mb epoch rest
           \<lparr> learner = p, approx_kl = Some kl, events = events st @ [(epoch, start, kl)] \<rparr>)"

text \<open>
  The outer loop \<open>for epoch in range(args.update_epochs)\<close> with the test
  \<open>if args.target_kl is not None and approx_kl > args.target_kl: break\<close> after the
  inner loop. Reading \<open>approx_kl\<close> while it is unbound raises \<open>NameError\<close>.
\<close>

fun epoch_loop ::
  "'f arith \<Rightarrow> Args \<Rightarrow> (nat \<Rightarrow> nat \<Rightarrow> 'p \<Rightarrow> 'p \<times> 'f list) \<Rightarrow> nat list
     \<Rightarrow> ('p, 'f) opt_state \<Rightarrow> py_error + ('p, 'f) opt_state"
where
  "epoch_loop ar args mb [] st = Inr st"
| "epoch_loop ar args mb (epoch # rest) st =
     (case range_step (batch_size args) (minibatch_size args) of
        Inl e \<Rightarrow> Inl e
      | Inr starts \<Rightarrow>
          (let st' = minibatch_loop ar mb epoch starts st
           in case target_kl args of
                None \<Rightarrow> epoch_loop ar args mb rest st'
              | Some tk \<Rightarrow>
                  (case approx_kl st' of
                     None \<Rightarrow> Inl NameError
                   | Some kl \<Rightarrow>
                       if f_gt ar kl tk then Inr st' else epoch_loop ar args mb rest st')))"

text \<open>
  The optimisation phase of one iteration, from the learner and the value \<open>approx_kl\<close>
  has when the phase starts.
\<close>

definition optimize ::
  "'f arith \<Rightarrow> Args \<Rightarrow> (nat \<Rightarrow> nat \<Rightarrow> 'p \<Rightarrow> 'p \<times> 'f list) \<Rightarrow> 'p \<Rightarrow> 'f option
     \<Rightarrow> py_error + ('p, 'f) opt_state"
where
  "optimize ar args mb p kl0 =
     epoch_loop ar args mb [0..<update_epochs args]
       \<lparr> learner = p, approx_kl = kl0, events = [] \<rparr>"

text \<open>The epoch and start index of an event.\<close>

definition step_of :: "nat \<times> nat \<times> 'f \<Rightarrow> nat \<times> nat" where
  "step_of ev = (fst ev, fst (snd ev))"

text \<open>The minibatch steps of whole epochs, in the order they run.\<close>

definition whole_epochs :: "nat list \<Rightarrow> nat list \<Rightarrow> (nat \<times> nat) list" where
  "whole_epochs starts epochs = concat (map (\<lambda>epoch. map (Pair epoch) starts) epochs)"

text \<open>
  The approximate KL of the specification's words: the mean of
  \<open>(ratio - 1) - log ratio\<close> with \<open>ratio = exp (log ratio)\<close>.
\<close>

definition kl_formula :: "'f arith \<Rightarrow> 'f list \<Rightarrow> 'f" where
  "kl_formula ar logratio =
     f_mean ar (map (\<lambda>l. f_sub ar (f_sub ar (f_exp ar l) (f_one ar)) l) logratio)"

text \<open>
  What running a list of minibatch steps amounts to: each step starts from the learner
  the step before it left, and is recorded with the approximate KL of its own
  \<open>logratio\<close>. The result is the record of the steps and the last learner.
\<close>

fun replay ::
  "'f arith \<Rightarrow> (nat \<Rightarrow> nat \<Rightarrow> 'p \<Rightarrow> 'p \<times> 'f list) \<Rightarrow> (nat \<times> nat) list \<Rightarrow> 'p
     \<Rightarrow> (nat \<times> nat \<times> 'f) list \<times> 'p"
where
  "replay ar mb [] p = ([], p)"
| "replay ar mb (step # rest) p =
     (let r = mb (fst step) (snd step) p;
          tl = replay ar mb rest (fst r)
      in ((fst step, snd step, kl_formula ar (snd r)) # fst tl, snd tl))"

text \<open>
  A configuration with two minibatches per epoch, two epochs and a target KL below zero,
  and one whose \<open>num_minibatches = 3\<close> exceeds the batch size \<open>2\<close>, so that
  \<open>minibatch_size = 2 // 3 = 0\<close>.
\<close>

definition kl_args :: Args where
  "kl_args = default_args\<lparr> batch_size := 2, minibatch_size := 1, update_epochs := 2,
                            target_kl := Some (- 1) \<rparr>"

definition zero_minibatch_args :: Args where
  "zero_minibatch_args = default_args\<lparr> batch_size := 2, minibatch_size := 0 \<rparr>"

section \<open>Episode statistics\<close>

text \<open>
  The two numpy accumulators and the summary writer, which is the list of the scalars
  written so far as (tag, value, global step).
\<close>

record ep_stats =
  episode_rewards :: vec
  episode_lengths :: vec
  writer :: "(string \<times> real \<times> nat) list"

text \<open>\<open>episode_lengths += 1\<close>, at the start of a step.\<close>

definition count_step :: "ep_stats \<Rightarrow> ep_stats" where
  "count_step st = st\<lparr> episode_lengths := map (\<lambda>l. l + 1) (episode_lengths st) \<rparr>"

text \<open>A boolean array in arithmetic is \<open>0\<close> and \<open>1\<close>; \<open>x[mask] = 0\<close>.\<close>

definition times_mask :: "vec \<Rightarrow> bool list \<Rightarrow> vec" where
  "times_mask xs flags = map2 (\<lambda>x d. x * (if d then 1 else 0)) xs flags"

definition zero_where :: "vec \<Rightarrow> bool list \<Rightarrow> vec" where
  "zero_where xs flags = map2 (\<lambda>x d. if d then 0 else x) xs flags"

definition np_any :: "bool list \<Rightarrow> bool" where
  "np_any flags = list_ex (\<lambda>d. d) flags"

text \<open>
  The statistics block after \<open>envs.step\<close>. \<open>envs_num_envs\<close> is the attribute
  \<open>envs.num_envs\<close> of the vector environment.
\<close>

definition record_step :: "nat \<Rightarrow> nat \<Rightarrow> vec \<Rightarrow> bool list \<Rightarrow> ep_stats \<Rightarrow> ep_stats" where
  "record_step envs_num_envs global_step reward next_done st =
     (let er = vadd (episode_rewards st) reward
      in if np_any next_done
         then \<lparr> episode_rewards = zero_where er next_done,
                episode_lengths = zero_where (episode_lengths st) next_done,
                writer = writer st @
                  [(''charts/average_per_player_episodic_return'',
                      mean_of (times_mask er next_done), global_step),
                   (''charts/share_episodic_return'',
                      mean_of (times_mask (smul (real envs_num_envs) er) next_done), global_step),
                   (''charts/episodic_length'',
                      mean_of (times_mask (episode_lengths st) next_done), global_step)] \<rparr>
         else st\<lparr> episode_rewards := er \<rparr>)"

text \<open>Two slots at the start of a run.\<close>

definition two_slots :: ep_stats where
  "two_slots = \<lparr> episode_rewards = [0, 0], episode_lengths = [0, 0], writer = [] \<rparr>"

text \<open>
  The mean over the flagged slots, in the specification's words: the sum of the flagged
  entries over the number of flagged slots.
\<close>

definition flagged_mean :: "vec \<Rightarrow> bool list \<Rightarrow> real" where
  "flagged_mean xs flags =
     sum_list (times_mask xs flags) / real (length (filter (\<lambda>d. d) flags))"

section \<open>Properties of the advantage estimator\<close>

subsection \<open>Elementwise operations\<close>

lemma length_vadd [simp]: "length (vadd xs ys) = min (length xs) (length ys)"
  by (simp add: vadd_def)
lemma length_vsub [simp]: "length (vsub xs ys) = min (length xs) (length ys)"
  by (simp add: vsub_def)
lemma length_vmul [simp]: "length (vmul xs ys) = min (length xs) (length ys)"
  by (simp add: vmul_def)
lemma length_smul [simp]: "length (smul c xs) = length xs"
  by (simp add: smul_def)
lemma length_one_minus [simp]: "length (one_minus xs) = length xs"
  by (simp add: one_minus_def)

lemma nth_vadd [simp]: "i < length xs \<Longrightarrow> i < length ys \<Longrightarrow> vadd xs ys ! i = xs ! i + ys ! i"
  by (simp add: vadd_def)
lemma nth_vsub [simp]: "i < length xs \<Longrightarrow> i < length ys \<Longrightarrow> vsub xs ys ! i = xs ! i - ys ! i"
  by (simp add: vsub_def)
lemma nth_vmul [simp]: "i < length xs \<Longrightarrow> i < length ys \<Longrightarrow> vmul xs ys ! i = xs ! i * ys ! i"
  by (simp add: vmul_def)
lemma nth_smul [simp]: "i < length xs \<Longrightarrow> smul c xs ! i = c * xs ! i"
  by (simp add: smul_def)
lemma nth_one_minus [simp]: "i < length xs \<Longrightarrow> one_minus xs ! i = 1 - xs ! i"
  by (simp add: one_minus_def)

lemma shaped_length: "shaped T N m \<Longrightarrow> length m = T"
  by (simp add: shaped_def)
lemma shaped_row: "shaped T N m \<Longrightarrow> t < T \<Longrightarrow> length (m ! t) = N"
  by (simp add: shaped_def list_all_length)

subsection \<open>The backward pass\<close>

lemma gae_loop_from: "gae_loop args rewards values dones next_value next_done =
   gae_from args rewards values dones next_value next_done 0"
  by (simp add: gae_loop_def gae_from_def foldr_conv_fold)

lemma gae_from_end: "num_steps args \<le> k \<Longrightarrow> gae_from args rewards values dones next_value next_done k =
   (zeros (num_steps args) (num_envs args), replicate (num_envs args) 0)"
  by (simp add: gae_from_def)

lemma gae_from_step: "k < num_steps args \<Longrightarrow> gae_from args rewards values dones next_value next_done k =
   gae_body args rewards values dones next_value next_done k
     (gae_from args rewards values dones next_value next_done (Suc k))"
  by (simp add: gae_from_def upt_conv_Cons)

lemma gae_from_lengths:
  assumes "shaped (num_steps args) (num_envs args) rewards"
      "shaped (num_steps args) (num_envs args) values"
      "shaped (num_steps args) (num_envs args) dones"
      "length next_value = num_envs args" "length next_done = num_envs args"
  shows "k \<le> num_steps args \<Longrightarrow>
    length (fst (gae_from args rewards values dones next_value next_done k)) = num_steps args \<and>
    length (snd (gae_from args rewards values dones next_value next_done k)) = num_envs args"
proof (induction "num_steps args - k" arbitrary: k)
  case 0
  then show ?case by (simp add: gae_from_end zeros_def)
next
  case (Suc d)
  then have k: "k < num_steps args" and ih: "length (fst (gae_from args rewards values dones next_value next_done (Suc k))) = num_steps args"
     "length (snd (gae_from args rewards values dones next_value next_done (Suc k))) = num_envs args"
    by auto
  show ?case using k ih assms
    by (simp add: gae_from_step [of k] gae_body_def Let_def shaped_row)
qed

lemma gae_body_carry:
  assumes "shaped (num_steps args) (num_envs args) rewards"
      "shaped (num_steps args) (num_envs args) values"
      "shaped (num_steps args) (num_envs args) dones"
      "length next_value = num_envs args" "length next_done = num_envs args"
      "k < num_steps args" "s < num_envs args" "length (snd st) = num_envs args"
  shows "snd (gae_body args rewards values dones next_value next_done k st) ! s =
     td_delta args rewards values dones next_value next_done k s
       + gamma args * gae_lambda args * (1 - nextdone_at args dones next_done k s) * snd st ! s"
proof (cases "k = num_steps args - 1")
  case True
  then show ?thesis using assms
    by (simp add: gae_body_def Let_def shaped_row td_delta_def nextdone_at_def nextvalue_at_def)
next
  case False
  then have "k + 1 < num_steps args" using assms(6) by simp
  then show ?thesis using assms False
    by (simp add: gae_body_def Let_def shaped_row td_delta_def nextdone_at_def nextvalue_at_def)
qed

lemma gae_from_carry:
  assumes "shaped (num_steps args) (num_envs args) rewards"
      "shaped (num_steps args) (num_envs args) values"
      "shaped (num_steps args) (num_envs args) dones"
      "length next_value = num_envs args" "length next_done = num_envs args"
      "k < num_steps args" "s < num_envs args"
  shows "snd (gae_from args rewards values dones next_value next_done k) ! s =
     td_delta args rewards values dones next_value next_done k s
       + gamma args * gae_lambda args * (1 - nextdone_at args dones next_done k s)
           * snd (gae_from args rewards values dones next_value next_done (Suc k)) ! s"
proof -
  have len: "length (snd (gae_from args rewards values dones next_value next_done (Suc k))) = num_envs args"
    using gae_from_lengths [OF assms(1-5), of "Suc k"] assms(6) by simp
  show ?thesis
    unfolding gae_from_step [OF assms(6)]
    by (rule gae_body_carry [OF assms len])
qed

lemma gae_from_row:
  assumes "shaped (num_steps args) (num_envs args) rewards"
      "shaped (num_steps args) (num_envs args) values"
      "shaped (num_steps args) (num_envs args) dones"
      "length next_value = num_envs args" "length next_done = num_envs args"
      "t < num_steps args"
  shows "k \<le> t \<Longrightarrow> fst (gae_from args rewards values dones next_value next_done k) ! t =
     snd (gae_from args rewards values dones next_value next_done t)"
proof (induction "t - k" arbitrary: k)
  case 0
  then have "k = t" by simp
  moreover have "length (fst (gae_from args rewards values dones next_value next_done (Suc t))) = num_steps args"
    using gae_from_lengths [OF assms(1-5), of "Suc t"] assms(6) by simp
  ultimately show ?case using assms(6)
    by (simp add: gae_from_step [of t] gae_body_def Let_def)
next
  case (Suc d)
  then have "Suc k \<le> t" "d = t - Suc k" "k < num_steps args" "k \<noteq> t" using assms(6) by auto
  then show ?case using Suc.hyps(1) [of "Suc k"]
    by (simp add: gae_from_step [of k] gae_body_def Let_def)
qed


lemma gae_scenario:
  "gae_advantages scenario_args [[1.0], [2.0]] [[0.5], [0.5]] [[0], [0]] [0.0] [1]
     = [[2.40575], [1.5]]"
  "gae_returns scenario_args [[1.0], [2.0]] [[0.5], [0.5]] [[0], [0]] [0.0] [1]
     = [[2.90575], [2.0]]"
  by (simp_all add: gae_returns_def gae_advantages_def gae_loop_def scenario_args_def default_args_def
      gae_body_def zeros_def vadd_def vsub_def vmul_def smul_def one_minus_def madd_def
      upt_rec Let_def numeral_2_eq_2)

lemma gae_advantages_nth:
  assumes "shaped (num_steps args) (num_envs args) rewards"
      "shaped (num_steps args) (num_envs args) values"
      "shaped (num_steps args) (num_envs args) dones"
      "length next_value = num_envs args" "length next_done = num_envs args"
      "t < num_steps args"
  shows "gae_advantages args rewards values dones next_value next_done ! t
     = snd (gae_from args rewards values dones next_value next_done t)"
  using gae_from_row [OF assms, of 0] by (simp add: gae_advantages_def gae_loop_from)

lemma gae_advantages_shaped:
  assumes "shaped (num_steps args) (num_envs args) rewards"
      "shaped (num_steps args) (num_envs args) values"
      "shaped (num_steps args) (num_envs args) dones"
      "length next_value = num_envs args" "length next_done = num_envs args"
  shows "shaped (num_steps args) (num_envs args)
           (gae_advantages args rewards values dones next_value next_done)"
proof -
  have "length (gae_advantages args rewards values dones next_value next_done) = num_steps args"
    using gae_from_lengths [OF assms, of 0] by (simp add: gae_advantages_def gae_loop_from)
  moreover have "length (gae_advantages args rewards values dones next_value next_done ! t) = num_envs args"
    if "t < num_steps args" for t
    using gae_advantages_nth [OF assms that] gae_from_lengths [OF assms, of t] that by simp
  ultimately show ?thesis by (simp add: shaped_def list_all_length)
qed

lemma madd_nth:
  "shaped T N a \<Longrightarrow> shaped T N b \<Longrightarrow> t < T \<Longrightarrow> s < N \<Longrightarrow> madd a b ! t ! s = a ! t ! s + b ! t ! s"
  by (simp add: madd_def shaped_length shaped_row)

lemma gae_advantages_step:
  assumes "shaped (num_steps args) (num_envs args) rewards"
      and "shaped (num_steps args) (num_envs args) values"
      and "shaped (num_steps args) (num_envs args) dones"
      and "length next_value = num_envs args" and "length next_done = num_envs args"
      and "t < num_steps args" and "s < num_envs args"
  shows "gae_advantages args rewards values dones next_value next_done ! t ! s
           = td_delta args rewards values dones next_value next_done t s
             + gamma args * gae_lambda args * (1 - nextdone_at args dones next_done t s)
               * (if t = num_steps args - 1 then 0
                  else gae_advantages args rewards values dones next_value next_done ! (t + 1) ! s)"
proof -
  note wf = assms(1-5)
  have row: "gae_advantages args rewards values dones next_value next_done ! t
     = snd (gae_from args rewards values dones next_value next_done t)"
    by (rule gae_advantages_nth [OF wf assms(6)])
  have carry: "snd (gae_from args rewards values dones next_value next_done (Suc t)) ! s
     = (if t = num_steps args - 1 then 0
        else gae_advantages args rewards values dones next_value next_done ! (t + 1) ! s)"
  proof (cases "t = num_steps args - 1")
    case True
    then have "num_steps args \<le> Suc t" by simp
    then show ?thesis using True assms(7) by (simp add: gae_from_end)
  next
    case False
    then have "Suc t < num_steps args" using assms(6) by simp
    then show ?thesis using False gae_advantages_nth [OF wf, of "Suc t"] by simp
  qed
  show ?thesis
    unfolding row gae_from_carry [OF assms] carry ..
qed

lemma gae_returns_nth:
  assumes "shaped (num_steps args) (num_envs args) rewards"
      and "shaped (num_steps args) (num_envs args) values"
      and "shaped (num_steps args) (num_envs args) dones"
      and "length next_value = num_envs args" and "length next_done = num_envs args"
      and "t < num_steps args" and "s < num_envs args"
  shows "gae_returns args rewards values dones next_value next_done ! t ! s
           = gae_advantages args rewards values dones next_value next_done ! t ! s + values ! t ! s"
  unfolding gae_returns_def
  by (rule madd_nth [OF gae_advantages_shaped [OF assms(1-5)] assms(2) assms(6) assms(7)])

text \<open>
  Claim C1. On a filled buffer of \<open>num_steps\<close> rows and \<open>num_envs\<close> slots, the
  advantage table of the backward pass obeys the recursion of the specification at every
  step \<open>t\<close> and slot \<open>s\<close>: the advantage is the temporal-difference error plus
  \<open>gamma * gae_lambda * (1 - nextdone)\<close> times the advantage of step \<open>t + 1\<close>, the
  carry being zero at the last step; the return is the advantage plus the value. On the
  two-step scenario the advantages are \<open>2.40575\<close> and \<open>1.5\<close> and the returns
  \<open>2.90575\<close> and \<open>2.0\<close>, the numbers the recursion gives by hand.
\<close>

theorem gae_recursion:
  assumes "shaped (num_steps args) (num_envs args) rewards"
      and "shaped (num_steps args) (num_envs args) values"
      and "shaped (num_steps args) (num_envs args) dones"
      and "length next_value = num_envs args" and "length next_done = num_envs args"
      and "t < num_steps args" and "s < num_envs args"
  shows "gae_advantages args rewards values dones next_value next_done ! t ! s
           = td_delta args rewards values dones next_value next_done t s
             + gamma args * gae_lambda args * (1 - nextdone_at args dones next_done t s)
               * (if t = num_steps args - 1 then 0
                  else gae_advantages args rewards values dones next_value next_done ! (t + 1) ! s)
         \<and> gae_returns args rewards values dones next_value next_done ! t ! s
           = gae_advantages args rewards values dones next_value next_done ! t ! s + values ! t ! s
         \<and> gae_advantages scenario_args [[1.0], [2.0]] [[0.5], [0.5]] [[0], [0]] [0.0] [1]
           = [[2.40575], [1.5]]
         \<and> gae_returns scenario_args [[1.0], [2.0]] [[0.5], [0.5]] [[0], [0]] [0.0] [1]
           = [[2.90575], [2.0]]"
  using gae_advantages_step [OF assms] gae_returns_nth [OF assms] gae_scenario by blast

theorem gae_recursion_witness:
  "shaped (num_steps scenario_args) (num_envs scenario_args) [[1.0], [2.0]]
   \<and> shaped (num_steps scenario_args) (num_envs scenario_args) [[0.5], [0.5]]
   \<and> shaped (num_steps scenario_args) (num_envs scenario_args) [[0], [0]]
   \<and> length [0.0::real] = num_envs scenario_args \<and> length [1::real] = num_envs scenario_args
   \<and> 0 < num_steps scenario_args \<and> 0 < num_envs scenario_args
   \<and> gae_advantages scenario_args [[1.0], [2.0]] [[0.5], [0.5]] [[0], [0]] [0.0] [1] ! 0 ! 0
       = td_delta scenario_args [[1.0], [2.0]] [[0.5], [0.5]] [[0], [0]] [0.0] [1] 0 0
         + gamma scenario_args * gae_lambda scenario_args
             * (1 - nextdone_at scenario_args [[0], [0]] [1] 0 0)
             * (if 0 = num_steps scenario_args - 1 then 0
                else gae_advantages scenario_args [[1.0], [2.0]] [[0.5], [0.5]] [[0], [0]] [0.0] [1]
                       ! (0 + 1) ! 0)"
proof -
  have sh: "shaped (num_steps scenario_args) (num_envs scenario_args) [[1.0], [2.0]]"
    "shaped (num_steps scenario_args) (num_envs scenario_args) [[0.5], [0.5]]"
    "shaped (num_steps scenario_args) (num_envs scenario_args) [[0], [0]]"
    by (simp_all add: shaped_def scenario_args_def default_args_def)
  have ln: "length [0.0::real] = num_envs scenario_args" "length [1::real] = num_envs scenario_args"
    "0 < num_steps scenario_args" "0 < num_envs scenario_args"
    by (simp_all add: scenario_args_def default_args_def)
  from gae_recursion [OF sh ln] sh ln show ?thesis by blast
qed

subsection \<open>The two ends of \<open>gae_lambda\<close>\<close>

lemma gae_from_return:
  assumes wf: "shaped (num_steps args) (num_envs args) rewards"
      "shaped (num_steps args) (num_envs args) values"
      "shaped (num_steps args) (num_envs args) dones"
      "length next_value = num_envs args" "length next_done = num_envs args"
    and s: "s < num_envs args" and lam: "gae_lambda args = 1"
  shows "k < num_steps args \<Longrightarrow>
     snd (gae_from args rewards values dones next_value next_done k) ! s + values ! k ! s
       = discounted_return args rewards dones next_value next_done k s"
proof (induction "num_steps args - k" arbitrary: k)
  case 0
  then show ?case by simp
next
  case (Suc d)
  have k: "k < num_steps args" by (rule Suc.prems)
  have carry: "snd (gae_from args rewards values dones next_value next_done k) ! s =
     td_delta args rewards values dones next_value next_done k s
       + gamma args * (1 - nextdone_at args dones next_done k s)
           * snd (gae_from args rewards values dones next_value next_done (Suc k)) ! s"
    using gae_from_carry [OF wf k s] lam by simp
  have unfold: "discounted_return args rewards dones next_value next_done k s
      = rewards ! k ! s + gamma args * (1 - nextdone_at args dones next_done k s)
                 * discounted_return args rewards dones next_value next_done (Suc k) s"
    using k by (subst discounted_return.simps) simp
  show ?case
  proof (cases "k = num_steps args - 1")
    case True
    then have e: "num_steps args \<le> Suc k" by simp
    have "discounted_return args rewards dones next_value next_done (Suc k) s = next_value ! s"
      using e by (subst discounted_return.simps) simp
    moreover have "snd (gae_from args rewards values dones next_value next_done (Suc k)) ! s = 0"
      using e s by (simp add: gae_from_end)
    moreover have "nextvalue_at args values next_value k s = next_value ! s"
      using True by (simp add: nextvalue_at_def)
    ultimately show ?thesis unfolding carry unfold td_delta_def by (simp add: algebra_simps)
  next
    case False
    then have lt: "Suc k < num_steps args" using k by simp
    have "d = num_steps args - Suc k" using Suc.hyps(2) by simp
    then have ih: "snd (gae_from args rewards values dones next_value next_done (Suc k)) ! s
         + values ! Suc k ! s = discounted_return args rewards dones next_value next_done (Suc k) s"
      using Suc.hyps(1) lt by blast
    have "nextvalue_at args values next_value k s = values ! Suc k ! s"
      using False by (simp add: nextvalue_at_def)
    then show ?thesis unfolding carry unfold td_delta_def ih [symmetric] by (simp add: algebra_simps)
  qed
qed

lemma gae_lambda_cases:
  assumes "shaped (num_steps args) (num_envs args) rewards"
      and "shaped (num_steps args) (num_envs args) values"
      and "shaped (num_steps args) (num_envs args) dones"
      and "length next_value = num_envs args" and "length next_done = num_envs args"
      and "t < num_steps args" and "s < num_envs args"
  shows "(gae_lambda args = 1 \<longrightarrow>
            gae_advantages args rewards values dones next_value next_done ! t ! s
              = discounted_return args rewards dones next_value next_done t s - values ! t ! s
          \<and> gae_returns args rewards values dones next_value next_done ! t ! s
              = discounted_return args rewards dones next_value next_done t s)
       \<and> (gae_lambda args = 0 \<longrightarrow>
            gae_advantages args rewards values dones next_value next_done ! t ! s
              = rewards ! t ! s
                + gamma args * nextvalue_at args values next_value t s
                    * (1 - nextdone_at args dones next_done t s)
                - values ! t ! s)"
proof -
  note wf = assms(1-5)
  have row: "gae_advantages args rewards values dones next_value next_done ! t
     = snd (gae_from args rewards values dones next_value next_done t)"
    by (rule gae_advantages_nth [OF wf assms(6)])
  have ret: "gae_returns args rewards values dones next_value next_done ! t ! s
           = gae_advantages args rewards values dones next_value next_done ! t ! s + values ! t ! s"
    unfolding gae_returns_def
    by (rule madd_nth [OF gae_advantages_shaped [OF wf] assms(2) assms(6) assms(7)])
  have one: "gae_advantages args rewards values dones next_value next_done ! t ! s
              = discounted_return args rewards dones next_value next_done t s - values ! t ! s"
    if "gae_lambda args = 1"
    using gae_from_return [OF wf assms(7) that assms(6)] unfolding row by simp
  have zero: "gae_advantages args rewards values dones next_value next_done ! t ! s
              = td_delta args rewards values dones next_value next_done t s"
    if "gae_lambda args = 0"
    unfolding row gae_from_carry [OF assms] using that by simp
  show ?thesis using one zero ret by (simp add: td_delta_def)
qed


lemma discounted_return_lambda:
  "discounted_return (args\<lparr> gae_lambda := l \<rparr>) rewards dones next_value next_done t s
     = discounted_return args rewards dones next_value next_done t s"
proof (induction "num_steps args - t" arbitrary: t)
  case 0
  then show ?case
    by (simp add: discounted_return.simps [of _ _ _ _ _ t])
next
  case (Suc d)
  then have "d = num_steps args - Suc t" by simp
  then have "discounted_return (args\<lparr> gae_lambda := l \<rparr>) rewards dones next_value next_done (Suc t) s
     = discounted_return args rewards dones next_value next_done (Suc t) s"
    by (rule Suc.hyps(1))
  then show ?case
    by (simp add: discounted_return.simps [of _ _ _ _ _ t] nextdone_at_def)
qed

text \<open>
  Claim C3. With \<open>gae_lambda = 1\<close> the advantage at every step and slot is the
  discounted return-to-go (bootstrapped with the value after the last step, cut at done
  flags) minus the value, so the returns are the discounted returns; with
  \<open>gae_lambda = 0\<close> the advantage is the one-step temporal-difference error
  \<open>reward + gamma * nextvalue * (1 - nextdone) - value\<close>.
\<close>

theorem gae_lambda_limits:
  assumes "shaped (num_steps args) (num_envs args) rewards"
      and "shaped (num_steps args) (num_envs args) values"
      and "shaped (num_steps args) (num_envs args) dones"
      and "length next_value = num_envs args" and "length next_done = num_envs args"
      and "t < num_steps args" and "s < num_envs args"
  shows "gae_advantages (args\<lparr> gae_lambda := 1 \<rparr>) rewards values dones next_value next_done ! t ! s
           = discounted_return args rewards dones next_value next_done t s - values ! t ! s
       \<and> gae_returns (args\<lparr> gae_lambda := 1 \<rparr>) rewards values dones next_value next_done ! t ! s
           = discounted_return args rewards dones next_value next_done t s
       \<and> gae_advantages (args\<lparr> gae_lambda := 0 \<rparr>) rewards values dones next_value next_done ! t ! s
           = rewards ! t ! s
             + gamma args * nextvalue_at args values next_value t s
                 * (1 - nextdone_at args dones next_done t s)
             - values ! t ! s"
proof -
  have one: "gae_advantages (args\<lparr> gae_lambda := 1 \<rparr>) rewards values dones next_value next_done ! t ! s
           = discounted_return args rewards dones next_value next_done t s - values ! t ! s
       \<and> gae_returns (args\<lparr> gae_lambda := 1 \<rparr>) rewards values dones next_value next_done ! t ! s
           = discounted_return args rewards dones next_value next_done t s"
    using gae_lambda_cases [of "args\<lparr> gae_lambda := 1 \<rparr>" rewards "values" dones next_value next_done t s]
      assms by (simp add: discounted_return_lambda)
  have zero: "gae_advantages (args\<lparr> gae_lambda := 0 \<rparr>) rewards values dones next_value next_done ! t ! s
           = rewards ! t ! s
             + gamma args * nextvalue_at args values next_value t s
                 * (1 - nextdone_at args dones next_done t s)
             - values ! t ! s"
    using gae_lambda_cases [of "args\<lparr> gae_lambda := 0 \<rparr>" rewards "values" dones next_value next_done t s]
      assms by (simp add: nextvalue_at_def nextdone_at_def)
  show ?thesis using one zero by blast
qed

theorem gae_lambda_limits_witness:
  "shaped (num_steps scenario_args) (num_envs scenario_args) [[1.0], [2.0]]
   \<and> shaped (num_steps scenario_args) (num_envs scenario_args) [[0.5], [0.5]]
   \<and> shaped (num_steps scenario_args) (num_envs scenario_args) [[0], [0]]
   \<and> length [0.0::real] = num_envs scenario_args \<and> length [1::real] = num_envs scenario_args
   \<and> 0 < num_steps scenario_args \<and> 0 < num_envs scenario_args
   \<and> gae_returns (scenario_args\<lparr> gae_lambda := 1 \<rparr>) [[1.0], [2.0]] [[0.5], [0.5]] [[0], [0]] [0.0] [1] ! 0 ! 0
       = discounted_return scenario_args [[1.0], [2.0]] [[0], [0]] [0.0] [1] 0 0
   \<and> discounted_return scenario_args [[1.0], [2.0]] [[0], [0]] [0.0] [1] 0 0 = 2.98"
proof -
  have sh: "shaped (num_steps scenario_args) (num_envs scenario_args) [[1.0], [2.0]]"
    "shaped (num_steps scenario_args) (num_envs scenario_args) [[0.5], [0.5]]"
    "shaped (num_steps scenario_args) (num_envs scenario_args) [[0], [0]]"
    by (simp_all add: shaped_def scenario_args_def default_args_def)
  have ln: "length [0.0::real] = num_envs scenario_args" "length [1::real] = num_envs scenario_args"
    "0 < num_steps scenario_args" "0 < num_envs scenario_args"
    by (simp_all add: scenario_args_def default_args_def)
  have v: "discounted_return scenario_args [[1.0], [2.0]] [[0], [0]] [0.0] [1] 0 0 = 2.98"
    by (simp add: discounted_return.simps nextdone_at_def scenario_args_def default_args_def)
  from gae_lambda_limits [OF sh ln] sh ln v show ?thesis by blast
qed

section \<open>Properties of the return normaliser\<close>

text \<open>
  Claim C4. For a normaliser state whose \<open>var\<close> is strictly positive, denormalising
  the normalised form of any \<open>x\<close> gives \<open>x\<close> back, in exact arithmetic.
\<close>

theorem normalize_roundtrip:
  assumes "0 < var nz"
  shows "denormalize nz (normalize nz x) = x"
proof -
  have "sqrt (var nz) \<noteq> 0" using assms by simp
  then show ?thesis by (simp add: normalize_def denormalize_def)
qed

theorem normalize_roundtrip_witness:
  "0 < var normalizer_init
   \<and> denormalize normalizer_init (normalize normalizer_init 3) = 3"
proof -
  have v: "0 < var normalizer_init"
    by (simp add: normalizer_init_def clamp_min_def debias_divisor_def Let_def)
  from normalize_roundtrip [OF v, of 3] v show ?thesis by blast
qed

lemma debias_divisor_pos: "0 < debias_divisor d"
  by (simp add: debias_divisor_def clamp_min_def max_def)

lemma debias_divisor_ge: "0.00001 \<le> debias_divisor d"
  by (simp add: debias_divisor_def clamp_min_def)

lemma normalizer_after_snoc:
  "normalizer_after args (batches @ [b]) = normalizer_update args b (normalizer_after args batches)"
  by (simp add: normalizer_after_def)

lemma normalizer_after_Nil: "normalizer_after args [] = normalizer_init"
  by (simp add: normalizer_after_def)

lemma normalizer_derived:
  "mean (normalizer_after args batches)
     = running_mean (normalizer_after args batches)
         / debias_divisor (debiasing_term (normalizer_after args batches))
   \<and> mean_sq (normalizer_after args batches)
     = running_mean_sq (normalizer_after args batches)
         / debias_divisor (debiasing_term (normalizer_after args batches))
   \<and> var (normalizer_after args batches)
     = clamp_min (mean_sq (normalizer_after args batches)
                   - mean (normalizer_after args batches) ^ 2) 0.01"
proof (cases batches rule: rev_cases)
  case Nil
  then show ?thesis by (simp add: normalizer_after_Nil normalizer_init_def Let_def)
next
  case (snoc bs b)
  then show ?thesis by (simp add: normalizer_after_snoc normalizer_update_def Let_def)
qed

text \<open>
  Claim C6. In every state the normaliser reaches by updates from the zero state, the
  divisor of \<open>mean\<close> and \<open>mean_sq\<close> is the debiasing term clamped to at least
  \<open>1e-5\<close> and is strictly positive; \<open>var\<close> is the clamped difference and at least
  \<open>1e-2\<close>, so its square root, the divisor in \<open>normalize\<close> and the factor in
  \<open>denormalize\<close>, is strictly positive. No division by zero occurs.
\<close>

theorem normalizer_no_zero_divisor:
  "0 < debias_divisor (debiasing_term (normalizer_after args batches))
   \<and> mean (normalizer_after args batches)
       = running_mean (normalizer_after args batches)
           / debias_divisor (debiasing_term (normalizer_after args batches))
   \<and> mean_sq (normalizer_after args batches)
       = running_mean_sq (normalizer_after args batches)
           / debias_divisor (debiasing_term (normalizer_after args batches))
   \<and> 0.00001 \<le> debias_divisor (debiasing_term (normalizer_after args batches))
   \<and> var (normalizer_after args batches)
       = clamp_min (mean_sq (normalizer_after args batches)
                     - mean (normalizer_after args batches) ^ 2) 0.01
   \<and> 0.01 \<le> var (normalizer_after args batches)
   \<and> 0 < sqrt (var (normalizer_after args batches))
   \<and> normalize (normalizer_after args batches) x
       = (x - mean (normalizer_after args batches)) / sqrt (var (normalizer_after args batches))
   \<and> denormalize (normalizer_after args batches) y
       = y * sqrt (var (normalizer_after args batches)) + mean (normalizer_after args batches)"
proof -
  let ?nz = "normalizer_after args batches"
  note d = normalizer_derived [of args batches]
  have v: "0.01 \<le> var ?nz"
    using d by (simp add: clamp_min_def)
  then have "0 < var ?nz" by simp
  then have s: "0 < sqrt (var ?nz)" by simp
  show ?thesis
    using d v s debias_divisor_pos [of "debiasing_term ?nz"] debias_divisor_ge [of "debiasing_term ?nz"]
    by (simp add: normalize_def denormalize_def)
qed

subsection \<open>Batches of one constant\<close>









section \<open>Properties of the advantage phase\<close>

lemma gae_body_flag:
  "gae_body (args\<lparr> use_value_normalization := b \<rparr>) rewards values dones next_value next_done
     = gae_body args rewards values dones next_value next_done"
  by (rule ext)+ (simp add: gae_body_def)

lemma gae_advantages_flag:
  "gae_advantages (args\<lparr> use_value_normalization := b \<rparr>) rewards values dones next_value next_done
     = gae_advantages args rewards values dones next_value next_done"
  by (simp add: gae_advantages_def gae_loop_def gae_body_flag)

lemma shaped_map: "shaped T N m \<Longrightarrow> shaped T N (map (map f) m)"
  by (simp add: shaped_def list_all_length)

lemma nextvalue_at_map:
  assumes "shaped (num_steps args) (num_envs args) values" and "length next_value = num_envs args"
      and "t < num_steps args" and "s < num_envs args"
  shows "nextvalue_at args (map (map f) values) (map f next_value) t s
           = f (nextvalue_at args values next_value t s)"
proof (cases "t = num_steps args - 1")
  case True
  then show ?thesis using assms by (simp add: nextvalue_at_def)
next
  case False
  then have "t + 1 < num_steps args" using assms(3) by simp
  then show ?thesis using assms False
    by (simp add: nextvalue_at_def shaped_length shaped_row)
qed

text \<open>
  Claim C2. With value normalisation on, the advantage phase first turns every stored
  value and the bootstrap value into \<open>value * sqrt var + mean\<close>, with the \<open>mean\<close>
  and \<open>var\<close> the normaliser holds at that time, and runs the recursion on these raw
  values: every temporal-difference error and advantage is computed from them. With
  value normalisation off, the values are used as they are.
\<close>

theorem advantage_phase_denormalizes:
  assumes "shaped (num_steps args) (num_envs args) rewards"
      and "shaped (num_steps args) (num_envs args) values"
      and "shaped (num_steps args) (num_envs args) dones"
      and "length next_value = num_envs args" and "length next_done = num_envs args"
      and "t < num_steps args" and "s < num_envs args"
  shows "advantage_phase (args\<lparr> use_value_normalization := True \<rparr>) nz
             rewards values dones next_value next_done
           = (map (map (\<lambda>v. v * sqrt (var nz) + mean nz)) values,
              gae_advantages args rewards (map (map (\<lambda>v. v * sqrt (var nz) + mean nz)) values)
                dones (map (\<lambda>v. v * sqrt (var nz) + mean nz) next_value) next_done,
              gae_returns args rewards (map (map (\<lambda>v. v * sqrt (var nz) + mean nz)) values)
                dones (map (\<lambda>v. v * sqrt (var nz) + mean nz) next_value) next_done)
       \<and> fst (snd (advantage_phase (args\<lparr> use_value_normalization := True \<rparr>) nz
                      rewards values dones next_value next_done)) ! t ! s
           = rewards ! t ! s
             + gamma args * (nextvalue_at args values next_value t s * sqrt (var nz) + mean nz)
                 * (1 - nextdone_at args dones next_done t s)
             - (values ! t ! s * sqrt (var nz) + mean nz)
             + gamma args * gae_lambda args * (1 - nextdone_at args dones next_done t s)
                 * (if t = num_steps args - 1 then 0
                    else fst (snd (advantage_phase (args\<lparr> use_value_normalization := True \<rparr>) nz
                                     rewards values dones next_value next_done)) ! (t + 1) ! s)
       \<and> advantage_phase (args\<lparr> use_value_normalization := False \<rparr>) nz
             rewards values dones next_value next_done
           = (values,
              gae_advantages args rewards values dones next_value next_done,
              gae_returns args rewards values dones next_value next_done)"
proof -
  let ?f = "\<lambda>v. v * sqrt (var nz) + mean nz"
  let ?vs = "map (map ?f) values"
  let ?nv = "map ?f next_value"
  have den: "denormalize nz = ?f"
    by (rule ext) (simp add: denormalize_def)
  have on: "advantage_phase (args\<lparr> use_value_normalization := True \<rparr>) nz
             rewards values dones next_value next_done
           = (?vs, gae_advantages args rewards ?vs dones ?nv next_done,
              gae_returns args rewards ?vs dones ?nv next_done)"
    by (simp add: advantage_phase_def Let_def den gae_advantages_flag gae_returns_def)
  have off: "advantage_phase (args\<lparr> use_value_normalization := False \<rparr>) nz
             rewards values dones next_value next_done
           = (values,
              gae_advantages args rewards values dones next_value next_done,
              gae_returns args rewards values dones next_value next_done)"
    by (simp add: advantage_phase_def Let_def gae_advantages_flag gae_returns_def)
  have sh: "shaped (num_steps args) (num_envs args) ?vs"
    by (rule shaped_map [OF assms(2)])
  have ln: "length ?nv = num_envs args" using assms(4) by simp
  have step: "gae_advantages args rewards ?vs dones ?nv next_done ! t ! s
           = td_delta args rewards ?vs dones ?nv next_done t s
             + gamma args * gae_lambda args * (1 - nextdone_at args dones next_done t s)
               * (if t = num_steps args - 1 then 0
                  else gae_advantages args rewards ?vs dones ?nv next_done ! (t + 1) ! s)"
    by (rule gae_advantages_step [OF assms(1) sh assms(3) ln assms(5) assms(6) assms(7)])
  have cell: "?vs ! t ! s = ?f (values ! t ! s)"
    using assms(2,6,7) by (simp add: shaped_length shaped_row)
  have delta: "td_delta args rewards ?vs dones ?nv next_done t s
      = rewards ! t ! s
             + gamma args * (nextvalue_at args values next_value t s * sqrt (var nz) + mean nz)
                 * (1 - nextdone_at args dones next_done t s)
             - (values ! t ! s * sqrt (var nz) + mean nz)"
    unfolding td_delta_def nextvalue_at_map [OF assms(2,4,6,7)] cell ..
  show ?thesis
    unfolding on off using step unfolding delta by simp
qed

theorem advantage_phase_denormalizes_witness:
  "shaped (num_steps scenario_args) (num_envs scenario_args) [[1.0], [2.0]]
   \<and> shaped (num_steps scenario_args) (num_envs scenario_args) [[0.5], [0.5]]
   \<and> shaped (num_steps scenario_args) (num_envs scenario_args) [[0], [0]]
   \<and> length [0.0::real] = num_envs scenario_args \<and> length [1::real] = num_envs scenario_args
   \<and> 0 < num_steps scenario_args \<and> 0 < num_envs scenario_args
   \<and> advantage_phase (scenario_args\<lparr> use_value_normalization := False \<rparr>) normalizer_init
        [[1.0], [2.0]] [[0.5], [0.5]] [[0], [0]] [0.0] [1]
      = ([[0.5], [0.5]],
         gae_advantages scenario_args [[1.0], [2.0]] [[0.5], [0.5]] [[0], [0]] [0.0] [1],
         gae_returns scenario_args [[1.0], [2.0]] [[0.5], [0.5]] [[0], [0]] [0.0] [1])
   \<and> fst (advantage_phase (scenario_args\<lparr> use_value_normalization := True \<rparr>) normalizer_init
        [[1.0], [2.0]] [[0.5], [0.5]] [[0], [0]] [0.0] [1])
      = [[0.05], [0.05]]"
proof -
  have sh: "shaped (num_steps scenario_args) (num_envs scenario_args) [[1.0], [2.0]]"
    "shaped (num_steps scenario_args) (num_envs scenario_args) [[0.5], [0.5]]"
    "shaped (num_steps scenario_args) (num_envs scenario_args) [[0], [0]]"
    by (simp_all add: shaped_def scenario_args_def default_args_def)
  have ln: "length [0.0::real] = num_envs scenario_args" "length [1::real] = num_envs scenario_args"
    "0 < num_steps scenario_args" "0 < num_envs scenario_args"
    by (simp_all add: scenario_args_def default_args_def)
  have nz: "var normalizer_init = 0.01" "mean normalizer_init = 0"
    by (simp_all add: normalizer_init_def Let_def clamp_min_def debias_divisor_def)
  have sq: "sqrt (0.01::real) = 0.1"
    by (rule real_sqrt_unique) (simp_all add: power2_eq_square)
  have v: "map (map (\<lambda>v. v * sqrt (var normalizer_init) + mean normalizer_init)) [[0.5], [0.5]]
             = [[0.05], [0.05::real]]"
    unfolding nz sq by simp
  from advantage_phase_denormalizes [OF sh ln, of normalizer_init] sh ln v show ?thesis
    by simp
qed

section \<open>Properties of the value loss\<close>

lemma torch_clamp_abs_le:
  assumes "0 \<le> c"
  shows "\<bar>torch_clamp x (- c) c\<bar> \<le> \<bar>x\<bar>"
  using assms by (simp add: torch_clamp_def min_def max_def abs_if)

lemma abs_le_square: "\<bar>a\<bar> \<le> \<bar>b\<bar> \<Longrightarrow> a ^ 2 \<le> (b::real) ^ 2"
  by (simp add: abs_le_square_iff)

lemma huber_loss_mono:
  assumes "0 \<le> d" and "\<bar>a\<bar> \<le> \<bar>b\<bar>"
  shows "huber_loss a d \<le> huber_loss b d"
proof -
  have sq: "a ^ 2 \<le> b ^ 2" by (rule abs_le_square [OF assms(2)])
  consider "\<bar>b\<bar> \<le> d" | "\<bar>a\<bar> \<le> d" "d < \<bar>b\<bar>" | "d < \<bar>a\<bar>"
    by linarith
  then show ?thesis
  proof cases
    case 1
    then have "\<bar>a\<bar> \<le> d" using assms(2) by simp
    then show ?thesis using 1 sq by (simp add: huber_loss_def)
  next
    case 2
    have "a ^ 2 \<le> d ^ 2"
      using 2(1) assms(1) by (simp add: abs_le_square_iff [symmetric])
    moreover have "d * d \<le> d * \<bar>b\<bar>"
      using 2(2) assms(1) by (intro mult_left_mono) simp_all
    ultimately have "a ^ 2 / 2 \<le> d * (\<bar>b\<bar> - d / 2)"
      by (simp add: power2_eq_square algebra_simps)
    then show ?thesis using 2 by (simp add: huber_loss_def)
  next
    case 3
    then have b: "d < \<bar>b\<bar>" using assms(2) by simp
    have "d * \<bar>a\<bar> \<le> d * \<bar>b\<bar>"
      using assms by (intro mult_left_mono) simp_all
    then have "d * (\<bar>a\<bar> - d / 2) \<le> d * (\<bar>b\<bar> - d / 2)"
      by (simp add: algebra_simps)
    then show ?thesis using 3 b by (simp add: huber_loss_def)
  qed
qed

lemma elem_loss_mono:
  assumes "use_huber_loss args \<longrightarrow> 0 \<le> huber_delta args" and "\<bar>a\<bar> \<le> \<bar>b\<bar>"
  shows "elem_loss args a \<le> elem_loss args b"
proof (cases "use_huber_loss args")
  case True
  then show ?thesis using assms huber_loss_mono by (simp add: elem_loss_def)
next
  case False
  then show ?thesis using abs_le_square [OF assms(2)] by (simp add: elem_loss_def)
qed

lemma mean_of_zero_flags:
  fixes cs us :: vec
  assumes "\<And>i. i < length cs \<Longrightarrow> i < length us \<Longrightarrow> cs ! i \<le> us ! i"
  shows "mean_of (map2 (\<lambda>c u. if c > u then 1 else 0) cs us) = 0"
proof -
  have "\<not> (fst p > snd p)" if mem: "p \<in> set (zip cs us)" for p
  proof -
    obtain i where "cs ! i = fst p" "us ! i = snd p" "i < length cs" "i < length us"
      using mem unfolding in_set_zip by blast
    then show ?thesis using assms [of i] by simp
  qed
  then have eq: "map2 (\<lambda>c u. if c > u then 1 else (0::real)) cs us = map (\<lambda>p. 0) (zip cs us)"
    by (intro map_cong) (auto simp add: case_prod_beta)
  show ?thesis unfolding mean_of_def eq by simp
qed

lemma clipped_value_loss_nth:
  assumes "length newvalue = length target_values" and "i < length target_values"
  shows "v_clipped (clipped_value_loss args newvalue target_values) ! i
           = target_values ! i
             + torch_clamp (newvalue ! i - target_values ! i) (- clip_coef args) (clip_coef args)"
    and "v_loss_clipped_error (clipped_value_loss args newvalue target_values) ! i
           = torch_clamp (newvalue ! i - target_values ! i) (- clip_coef args) (clip_coef args)"
    and "v_loss_clipped (clipped_value_loss args newvalue target_values) ! i
           = elem_loss args
               (torch_clamp (newvalue ! i - target_values ! i) (- clip_coef args) (clip_coef args))"
    and "v_loss_unclipped (clipped_value_loss args newvalue target_values) ! i
           = elem_loss args (newvalue ! i - target_values ! i)"
    and "v_loss_max (clipped_value_loss args newvalue target_values) ! i
           = max (v_loss_unclipped (clipped_value_loss args newvalue target_values) ! i)
                 (v_loss_clipped (clipped_value_loss args newvalue target_values) ! i)"
    and "length (v_loss_clipped (clipped_value_loss args newvalue target_values))
           = length target_values"
    and "length (v_loss_unclipped (clipped_value_loss args newvalue target_values))
           = length target_values"
  using assms by (simp_all add: clipped_value_loss_def Let_def)


text \<open>
  Claim C10, as amended. With value-loss clipping, a clip coefficient that is not
  negative and, for the Huber loss, a delta that is not negative: at every element of a
  minibatch the clipped prediction is the target plus the clamped difference, the clipped
  error is the clamped difference, the clipped loss is at most the unclipped loss, their
  maximum is the unclipped loss, and the logged value-clip fraction is zero.
\<close>

theorem clipped_loss_never_larger:
  assumes "0 \<le> clip_coef args" and "use_huber_loss args \<longrightarrow> 0 \<le> huber_delta args"
      and "length newvalue = length target_values" and "i < length target_values"
  shows "v_clipped (clipped_value_loss args newvalue target_values) ! i
           = target_values ! i
             + torch_clamp (newvalue ! i - target_values ! i) (- clip_coef args) (clip_coef args)
       \<and> v_loss_clipped_error (clipped_value_loss args newvalue target_values) ! i
           = torch_clamp (newvalue ! i - target_values ! i) (- clip_coef args) (clip_coef args)
       \<and> v_loss_clipped (clipped_value_loss args newvalue target_values) ! i
           \<le> v_loss_unclipped (clipped_value_loss args newvalue target_values) ! i
       \<and> v_loss_max (clipped_value_loss args newvalue target_values) ! i
           = v_loss_unclipped (clipped_value_loss args newvalue target_values) ! i
       \<and> valueclipfrac (clipped_value_loss args newvalue target_values) = 0"
proof -
  let ?r = "clipped_value_loss args newvalue target_values"
  have le: "v_loss_clipped ?r ! j \<le> v_loss_unclipped ?r ! j" if "j < length target_values" for j
    unfolding clipped_value_loss_nth(3,4) [OF assms(3) that]
    by (rule elem_loss_mono [OF assms(2) torch_clamp_abs_le [OF assms(1)]])
  have frac: "valueclipfrac ?r
      = mean_of (map2 (\<lambda>c u. if c > u then 1 else 0) (v_loss_clipped ?r) (v_loss_unclipped ?r))"
    by (simp add: clipped_value_loss_def Let_def)
  have zero: "valueclipfrac ?r = 0"
    unfolding frac
    by (rule mean_of_zero_flags) (simp add: le clipped_value_loss_nth(6) [OF assms(3,4)])
  show ?thesis
    using clipped_value_loss_nth(1,2,5) [OF assms(3,4)] le [OF assms(4)] zero
    by (simp add: max_def)
qed

theorem clipped_loss_never_larger_witness:
  "0 \<le> clip_coef default_args
   \<and> use_huber_loss default_args \<and> 0 \<le> huber_delta default_args
   \<and> length [1.5, 0.1::real] = length [1.0, 0::real] \<and> 0 < length [1.0, 0::real]
   \<and> v_clipped (clipped_value_loss default_args [1.5, 0.1] [1.0, 0]) ! 0 = 1.2
   \<and> v_loss_clipped (clipped_value_loss default_args [1.5, 0.1] [1.0, 0]) ! 0 = 0.02
   \<and> v_loss_unclipped (clipped_value_loss default_args [1.5, 0.1] [1.0, 0]) ! 0 = 0.125
   \<and> v_loss_max (clipped_value_loss default_args [1.5, 0.1] [1.0, 0]) ! 0 = 0.125
   \<and> valueclipfrac (clipped_value_loss default_args [1.5, 0.1] [1.0, 0]) = 0"
proof -
  have h: "0 \<le> clip_coef default_args"
    "use_huber_loss default_args \<longrightarrow> 0 \<le> huber_delta default_args"
    "length [1.5, 0.1::real] = length [1.0, 0::real]" "0 < length [1.0, 0::real]"
    by (simp_all add: default_args_def)
  have u: "use_huber_loss default_args" "0 \<le> huber_delta default_args"
    by (simp_all add: default_args_def)
  have c: "torch_clamp ([1.5, 0.1::real] ! 0 - [1.0, 0::real] ! 0)
              (- clip_coef default_args) (clip_coef default_args) = 0.2"
    by (simp add: torch_clamp_def default_args_def)
  have l: "v_loss_clipped (clipped_value_loss default_args [1.5, 0.1] [1.0, 0]) ! 0 = 0.02"
    "v_loss_unclipped (clipped_value_loss default_args [1.5, 0.1] [1.0, 0]) ! 0 = 0.125"
    unfolding clipped_value_loss_nth(3,4) [OF h(3,4)] c
    by (simp_all add: elem_loss_def huber_loss_def default_args_def power2_eq_square)
  from clipped_loss_never_larger [OF h] h u c l show ?thesis by simp
qed

text \<open>
  Without the condition on the clip coefficient the clipped loss can be the larger one:
  with \<open>clip_coef = -0.25\<close> the clamp gives \<open>-0.25\<close> for every difference, so for
  new values \<open>0\<close> and \<open>1\<close> and targets \<open>0\<close> the first element has the unclipped
  loss \<open>0\<close> and the clipped loss \<open>0.03125\<close>, and the value-clip fraction is one half.
\<close>

theorem clipped_loss_counterexample:
  "clip_vloss negative_clip_args \<and> use_huber_loss negative_clip_args
   \<and> v_loss_unclipped (clipped_value_loss negative_clip_args [0, 1] [0, 0]) ! 0 = 0
   \<and> v_loss_clipped (clipped_value_loss negative_clip_args [0, 1] [0, 0]) ! 0 = 0.03125
   \<and> v_loss_max (clipped_value_loss negative_clip_args [0, 1] [0, 0]) ! 0 = 0.03125
   \<and> valueclipfrac (clipped_value_loss negative_clip_args [0, 1] [0, 0]) = 0.5"
  by (simp add: clipped_value_loss_def negative_clip_args_def default_args_def Let_def
      vsub_def vadd_def torch_clamp_def elem_loss_def huber_loss_def mean_of_def
      power2_eq_square)

section \<open>Properties of the episode statistics\<close>

lemma length_times_mask [simp]: "length (times_mask xs fl) = min (length xs) (length fl)"
  by (simp add: times_mask_def)

lemma nth_times_mask [simp]:
  "i < length xs \<Longrightarrow> i < length fl \<Longrightarrow> times_mask xs fl ! i = (if fl ! i then xs ! i else 0)"
  by (simp add: times_mask_def)

lemma length_zero_where [simp]: "length (zero_where xs fl) = min (length xs) (length fl)"
  by (simp add: zero_where_def)

lemma nth_zero_where [simp]:
  "i < length xs \<Longrightarrow> i < length fl \<Longrightarrow> zero_where xs fl ! i = (if fl ! i then 0 else xs ! i)"
  by (simp add: zero_where_def)

lemma mean_of_times_mask:
  assumes "length xs = N" and "length fl = N"
  shows "mean_of (times_mask xs fl) = (\<Sum>i<N. if fl ! i then xs ! i else 0) / real N"
proof -
  have "sum_list (times_mask xs fl) = (\<Sum>i = 0..<N. times_mask xs fl ! i)"
    using assms by (simp add: sum_list_sum_nth)
  also have "\<dots> = (\<Sum>i = 0..<N. if fl ! i then xs ! i else 0)"
    using assms by (intro sum.cong) simp_all
  finally show ?thesis using assms by (simp add: mean_of_def lessThan_atLeast0)
qed

text \<open>
  Claim C9, as amended. At a step where some slot's \<open>next_done\<close> is set, with \<open>N\<close>
  slots: the length of every slot is incremented by one before the step; the flushed
  episodic-return summary is the sum, over the flagged slots, of the accumulated rewards
  including the reward of this step, divided by the number \<open>N\<close> of all slots (the mean
  over all slots of reward times flag), and likewise for the lengths; after the flush the
  accumulators of the flagged slots are zero and those of the other slots are unchanged.
\<close>

theorem episode_flush:
  assumes "length (episode_rewards st) = N" and "length (episode_lengths st) = N"
      and "length reward = N" and "length next_done = N"
      and "np_any next_done" and "s < N"
  shows "episode_lengths (count_step st) ! s = episode_lengths st ! s + 1
       \<and> writer (record_step envs_num_envs global_step reward next_done (count_step st))
           = writer st @
             [(''charts/average_per_player_episodic_return'',
                 (\<Sum>i<N. if next_done ! i then episode_rewards st ! i + reward ! i else 0) / real N,
                 global_step),
              (''charts/share_episodic_return'',
                 (\<Sum>i<N. if next_done ! i
                           then real envs_num_envs * (episode_rewards st ! i + reward ! i) else 0)
                   / real N,
                 global_step),
              (''charts/episodic_length'',
                 (\<Sum>i<N. if next_done ! i then episode_lengths st ! i + 1 else 0) / real N,
                 global_step)]
       \<and> episode_rewards (record_step envs_num_envs global_step reward next_done (count_step st)) ! s
           = (if next_done ! s then 0 else episode_rewards st ! s + reward ! s)
       \<and> episode_lengths (record_step envs_num_envs global_step reward next_done (count_step st)) ! s
           = (if next_done ! s then 0 else episode_lengths st ! s + 1)"
proof -
  let ?er = "vadd (episode_rewards st) reward"
  let ?el = "map (\<lambda>l. l + 1) (episode_lengths st)"
  have l1: "length ?er = N" "length ?el = N" "length (smul (real envs_num_envs) ?er) = N"
    using assms by simp_all
  have m1: "mean_of (times_mask ?er next_done)
      = (\<Sum>i<N. if next_done ! i then episode_rewards st ! i + reward ! i else 0) / real N"
    unfolding mean_of_times_mask [OF l1(1) assms(4)]
    using assms by (intro arg_cong2 [where f = "(/)"] sum.cong) simp_all
  have m2: "mean_of (times_mask (smul (real envs_num_envs) ?er) next_done)
      = (\<Sum>i<N. if next_done ! i
                           then real envs_num_envs * (episode_rewards st ! i + reward ! i) else 0)
                   / real N"
    unfolding mean_of_times_mask [OF l1(3) assms(4)]
    using assms by (intro arg_cong2 [where f = "(/)"] sum.cong) simp_all
  have m3: "mean_of (times_mask ?el next_done)
      = (\<Sum>i<N. if next_done ! i then episode_lengths st ! i + 1 else 0) / real N"
    unfolding mean_of_times_mask [OF l1(2) assms(4)]
    using assms by (intro arg_cong2 [where f = "(/)"] sum.cong) simp_all
  have w: "writer (record_step envs_num_envs global_step reward next_done (count_step st))
      = writer st @
         [(''charts/average_per_player_episodic_return'',
             mean_of (times_mask ?er next_done), global_step),
          (''charts/share_episodic_return'',
             mean_of (times_mask (smul (real envs_num_envs) ?er) next_done), global_step),
          (''charts/episodic_length'', mean_of (times_mask ?el next_done), global_step)]"
    using assms(5) by (simp add: record_step_def count_step_def Let_def)
  have r: "episode_rewards (record_step envs_num_envs global_step reward next_done (count_step st)) ! s
           = (if next_done ! s then 0 else episode_rewards st ! s + reward ! s)"
    using assms by (simp add: record_step_def count_step_def Let_def)
  have l: "episode_lengths (record_step envs_num_envs global_step reward next_done (count_step st)) ! s
           = (if next_done ! s then 0 else episode_lengths st ! s + 1)"
    using assms by (simp add: record_step_def count_step_def Let_def)
  have c: "episode_lengths (count_step st) ! s = episode_lengths st ! s + 1"
    using assms by (simp add: count_step_def)
  show ?thesis unfolding w m1 m2 m3 using r l c by simp
qed

theorem episode_flush_witness:
  "length (episode_rewards two_slots) = 2 \<and> length (episode_lengths two_slots) = 2
   \<and> length [3, 5::real] = 2 \<and> length [True, False] = 2 \<and> np_any [True, False] \<and> (0::nat) < 2
   \<and> episode_rewards (record_step 2 7 [3, 5] [True, False] (count_step two_slots)) ! 0 = 0
   \<and> episode_lengths (record_step 2 7 [3, 5] [True, False] (count_step two_slots)) ! 0 = 0
   \<and> episode_lengths (count_step two_slots) ! 0 = 1"
proof -
  have h: "length (episode_rewards two_slots) = 2" "length (episode_lengths two_slots) = 2"
    "length [3, 5::real] = 2" "length [True, False] = 2" "np_any [True, False]" "(0::nat) < 2"
    by (simp_all add: two_slots_def np_any_def)
  from episode_flush [OF h, of 2 7] h show ?thesis
    by (simp add: two_slots_def)
qed

text \<open>
  The summary is not the mean over the flagged slots: with two slots, rewards \<open>3\<close> and
  \<open>5\<close> and only the first slot flagged, the script logs \<open>1.5\<close>, and the mean over
  the one flagged slot is \<open>3\<close>.
\<close>

theorem episode_flush_counterexample:
  "np_any [True, False]
   \<and> writer (record_step 2 7 [3, 5] [True, False] (count_step two_slots)) ! 0
       = (''charts/average_per_player_episodic_return'', 1.5, 7)
   \<and> flagged_mean (vadd (episode_rewards two_slots) [3, 5]) [True, False] = 3
   \<and> fst (snd (writer (record_step 2 7 [3, 5] [True, False] (count_step two_slots)) ! 0))
       \<noteq> flagged_mean (vadd (episode_rewards two_slots) [3, 5]) [True, False]"
  by (simp add: np_any_def record_step_def count_step_def two_slots_def Let_def vadd_def
      times_mask_def zero_where_def mean_of_def flagged_mean_def smul_def)

section \<open>Properties of the epoch loop\<close>

lemma approx_kl_of_formula: "approx_kl_of ar logratio = kl_formula ar logratio"
proof -
  have "map2 (f_sub ar) (map (\<lambda>r. f_sub ar r (f_one ar)) (map (f_exp ar) logratio)) logratio
          = map (\<lambda>l. f_sub ar (f_sub ar (f_exp ar l) (f_one ar)) l) logratio"
    by (induction logratio) simp_all
  then show ?thesis by (simp add: approx_kl_of_def kl_formula_def)
qed

lemma multiples_bound:
  fixes m B i :: nat
  assumes m: "0 < m"
  shows "i < (B + m - 1) div m \<longleftrightarrow> i * m < B"
proof -
  have "i < (B + m - 1) div m \<longleftrightarrow> Suc i \<le> (B + m - 1) div m" by (simp add: Suc_le_eq)
  also have "\<dots> \<longleftrightarrow> Suc i * m \<le> B + m - 1"
    using m by (rule less_eq_div_iff_mult_less_eq)
  also have "\<dots> \<longleftrightarrow> i * m < B" using m by (cases B) (simp_all add: less_Suc_eq_le)
  finally show ?thesis .
qed

lemma multiples:
  fixes m B :: nat
  assumes m: "0 < m"
  shows "sorted_wrt (<) (map (\<lambda>i. i * m) [0..<(B + m - 1) div m])"
    and "set (map (\<lambda>i. i * m) [0..<(B + m - 1) div m]) = {s. s < B \<and> m dvd s}"
    and "0 < B \<Longrightarrow> map (\<lambda>i. i * m) [0..<(B + m - 1) div m] \<noteq> []"
proof -
  let ?n = "(B + m - 1) div m"
  have "sorted_wrt (\<lambda>x y. x * m < y * m) [0..<?n]"
    by (rule sorted_wrt_mono_rel [of _ "(<)"]) (use m in simp_all)
  then show "sorted_wrt (<) (map (\<lambda>i. i * m) [0..<?n])" by (simp add: sorted_wrt_map)
  show "set (map (\<lambda>i. i * m) [0..<?n]) = {s. s < B \<and> m dvd s}"
  proof (intro set_eqI iffI)
    fix s assume "s \<in> set (map (\<lambda>i. i * m) [0..<?n])"
    then obtain i where i: "i < ?n" "s = i * m" by auto
    have "i * m < B" using multiples_bound [OF m, of i B] i(1) by simp
    then show "s \<in> {s. s < B \<and> m dvd s}" using i(2) by simp
  next
    fix s assume "s \<in> {s. s < B \<and> m dvd s}"
    then have "s < B" "m dvd s" by simp_all
    then obtain i where i: "s = i * m" by (metis dvd_div_mult_self)
    have "i < ?n" using multiples_bound [OF m, of i B] \<open>s < B\<close> i by simp
    then have "i \<in> set [0..<?n]" by simp
    then have "i * m \<in> (\<lambda>i. i * m) ` set [0..<?n]" by (rule imageI)
    then show "s \<in> set (map (\<lambda>i. i * m) [0..<?n])" unfolding i set_map .
  qed
  show "map (\<lambda>i. i * m) [0..<?n] \<noteq> []" if "0 < B"
    using multiples_bound [OF m, of 0 B] that by simp
qed

lemma range_step_ok:
  assumes "0 < m" and "0 < B"
  shows "\<exists>starts. range_step B m = Inr starts \<and> starts \<noteq> [] \<and> sorted_wrt (<) starts
           \<and> set starts = {s. s < B \<and> nat m dvd s}"
proof -
  have m: "0 < nat m" using assms(1) by simp
  have "range_step B m = Inr (map (\<lambda>i. i * nat m) [0..<(B + nat m - 1) div nat m])"
    using assms(1) by (simp add: range_step_def)
  then show ?thesis
    using multiples(1,2) [OF m, of B] multiples(3) [OF m assms(2)] by blast
qed

lemma replay_append:
  "replay ar mb (xs @ ys) p
     = (fst (replay ar mb xs p) @ fst (replay ar mb ys (snd (replay ar mb xs p))),
        snd (replay ar mb ys (snd (replay ar mb xs p))))"
  by (induction xs arbitrary: p) (simp_all add: Let_def)

lemma replay_steps: "map step_of (fst (replay ar mb steps p)) = steps"
  by (induction steps arbitrary: p) (simp_all add: Let_def step_of_def)

lemma minibatch_loop_replay:
  "events (minibatch_loop ar mb epoch starts st)
     = events st @ fst (replay ar mb (map (Pair epoch) starts) (learner st))
   \<and> learner (minibatch_loop ar mb epoch starts st)
     = snd (replay ar mb (map (Pair epoch) starts) (learner st))
   \<and> (starts \<noteq> [] \<longrightarrow>
        approx_kl (minibatch_loop ar mb epoch starts st)
          = Some (snd (snd (last (fst (replay ar mb (map (Pair epoch) starts) (learner st)))))))"
proof (induction starts arbitrary: st)
  case Nil
  then show ?case by simp
next
  case (Cons start rest)
  obtain p logratio where m: "mb epoch start (learner st) = (p, logratio)"
    by (cases "mb epoch start (learner st)")
  let ?kl = "kl_formula ar logratio"
  let ?st1 = "\<lparr> learner = p, approx_kl = Some ?kl, events = events st @ [(epoch, start, ?kl)] \<rparr>"
  let ?tl = "replay ar mb (map (Pair epoch) rest) p"
  have unfold: "minibatch_loop ar mb epoch (start # rest) st = minibatch_loop ar mb epoch rest ?st1"
    by (simp add: m Let_def approx_kl_of_formula)
  have rp: "replay ar mb (map (Pair epoch) (start # rest)) (learner st)
      = ((epoch, start, ?kl) # fst ?tl, snd ?tl)"
    by (simp add: m Let_def)
  note ih = Cons.IH [of ?st1]
  have a: "events (minibatch_loop ar mb epoch (start # rest) st)
     = events st @ fst (replay ar mb (map (Pair epoch) (start # rest)) (learner st))"
    unfolding unfold rp using ih by simp
  have b: "learner (minibatch_loop ar mb epoch (start # rest) st)
     = snd (replay ar mb (map (Pair epoch) (start # rest)) (learner st))"
    unfolding unfold rp using ih by simp
  have c: "approx_kl (minibatch_loop ar mb epoch (start # rest) st)
          = Some (snd (snd (last (fst (replay ar mb (map (Pair epoch) (start # rest)) (learner st))))))"
  proof (cases "rest = []")
    case True
    then show ?thesis unfolding unfold rp by simp
  next
    case False
    have "map step_of (fst ?tl) = map (Pair epoch) rest" by (rule replay_steps)
    then have "fst ?tl \<noteq> []" using False by auto
    then show ?thesis unfolding unfold rp using ih False by simp
  qed
  show ?case using a b c by blast
qed

lemma pass_last_only:
  assumes "distinct starts" and "map step_of evs = map (Pair epoch) starts"
      and "j < length evs" and "fst (snd (evs ! j)) = last starts"
  shows "Suc j = length evs"
proof -
  have len: "length evs = length starts"
    using assms(2) by (metis length_map)
  then have ne: "starts \<noteq> []" using assms(3) by auto
  have "step_of (evs ! j) = (epoch, starts ! j)"
    using assms(2,3) len by (metis nth_map)
  then have "starts ! j = last starts"
    using assms(4) by (simp add: step_of_def)
  also have "\<dots> = starts ! (length starts - 1)"
    using ne by (simp add: last_conv_nth)
  finally have "j = length starts - 1"
    using assms(1,3) len ne by (simp add: nth_eq_iff_index_eq)
  then show ?thesis using len ne by simp
qed

lemma whole_epochs_Cons:
  "whole_epochs starts (epoch # rest) = map (Pair epoch) starts @ whole_epochs starts rest"
  by (simp add: whole_epochs_def)

lemma epoch_loop_none:
  assumes "range_step (batch_size args) (minibatch_size args) = Inr starts"
      and "target_kl args = None"
  shows "\<exists>st'. epoch_loop ar args mb es st = Inr st'
           \<and> events st' = events st @ fst (replay ar mb (whole_epochs starts es) (learner st))
           \<and> learner st' = snd (replay ar mb (whole_epochs starts es) (learner st))"
proof (induction es arbitrary: st)
  case Nil
  then show ?case by (simp add: whole_epochs_def)
next
  case (Cons epoch rest)
  let ?st1 = "minibatch_loop ar mb epoch starts st"
  note p = minibatch_loop_replay [of ar mb epoch starts st]
  obtain st' where st': "epoch_loop ar args mb rest ?st1 = Inr st'"
      "events st' = events ?st1 @ fst (replay ar mb (whole_epochs starts rest) (learner ?st1))"
      "learner st' = snd (replay ar mb (whole_epochs starts rest) (learner ?st1))"
    using Cons.IH [of ?st1] by blast
  have "epoch_loop ar args mb (epoch # rest) st = Inr st'"
    using assms st'(1) by (simp add: Let_def)
  moreover have "events st'
      = events st @ fst (replay ar mb (whole_epochs starts (epoch # rest)) (learner st))"
    unfolding whole_epochs_Cons replay_append using st'(2) p by simp
  moreover have "learner st'
      = snd (replay ar mb (whole_epochs starts (epoch # rest)) (learner st))"
    unfolding whole_epochs_Cons replay_append using st'(3) p by simp
  ultimately show ?case by blast
qed

lemma epoch_loop_some:
  assumes rs: "range_step (batch_size args) (minibatch_size args) = Inr starts"
      and ne: "starts \<noteq> []" and dist: "distinct starts"
      and tk: "target_kl args = Some tk"
  shows "(\<forall>ev\<in>set (events st). fst (snd ev) = last starts \<longrightarrow> \<not> f_gt ar (snd (snd ev)) tk) \<Longrightarrow>
         \<exists>st' k. epoch_loop ar args mb es st = Inr st' \<and> k \<le> length es
           \<and> events st' = events st @ fst (replay ar mb (whole_epochs starts (take k es)) (learner st))
           \<and> learner st' = snd (replay ar mb (whole_epochs starts (take k es)) (learner st))
           \<and> (\<forall>i<length (events st').
                 fst (snd (events st' ! i)) = last starts \<longrightarrow> f_gt ar (snd (snd (events st' ! i))) tk
                   \<longrightarrow> Suc i = length (events st'))
           \<and> (k < length es \<longrightarrow>
                 events st' \<noteq> [] \<and> f_gt ar (snd (snd (last (events st')))) tk)"
proof (induction es arbitrary: st)
  case Nil
  have "\<forall>i<length (events st).
          fst (snd (events st ! i)) = last starts \<longrightarrow> f_gt ar (snd (snd (events st ! i))) tk
            \<longrightarrow> Suc i = length (events st)"
    using Nil.prems by (metis nth_mem)
  then show ?case by (simp add: whole_epochs_def)
next
  case (Cons epoch rest)
  let ?st1 = "minibatch_loop ar mb epoch starts st"
  let ?evs = "fst (replay ar mb (map (Pair epoch) starts) (learner st))"
  note p = minibatch_loop_replay [of ar mb epoch starts st]
  have ev1: "events ?st1 = events st @ ?evs" using p by simp
  have steps: "map step_of ?evs = map (Pair epoch) starts" by (rule replay_steps)
  have kl1: "approx_kl ?st1 = Some (snd (snd (last ?evs)))" using p ne by simp
  have len: "length ?evs = length starts" using steps by (metis length_map)
  then have evne: "?evs \<noteq> []" using ne by auto
  let ?kl = "snd (snd (last ?evs))"
  have only: "Suc j = length ?evs" if "j < length ?evs" "fst (snd (?evs ! j)) = last starts" for j
    by (rule pass_last_only [OF dist steps that])
  show ?case
  proof (cases "f_gt ar ?kl tk")
    case True
    have res: "epoch_loop ar args mb (epoch # rest) st = Inr ?st1"
      using rs tk kl1 True by (simp add: Let_def)
    have a: "events ?st1
        = events st @ fst (replay ar mb (whole_epochs starts (take 1 (epoch # rest))) (learner st))"
      using ev1 by (simp add: whole_epochs_def)
    have b: "learner ?st1
        = snd (replay ar mb (whole_epochs starts (take 1 (epoch # rest))) (learner st))"
      using p by (simp add: whole_epochs_def)
    have J: "\<forall>i<length (events ?st1).
                 fst (snd (events ?st1 ! i)) = last starts \<longrightarrow> f_gt ar (snd (snd (events ?st1 ! i))) tk
                   \<longrightarrow> Suc i = length (events ?st1)"
    proof (intro allI impI)
      fix i assume i: "i < length (events ?st1)"
        and l: "fst (snd (events ?st1 ! i)) = last starts"
        and g: "f_gt ar (snd (snd (events ?st1 ! i))) tk"
      show "Suc i = length (events ?st1)"
      proof (cases "i < length (events st)")
        case True
        then have "events ?st1 ! i \<in> set (events st)"
          unfolding ev1 by (simp add: nth_append)
        then show ?thesis using Cons.prems l g by blast
      next
        case False
        then have e: "events ?st1 ! i = ?evs ! (i - length (events st))"
            and j: "i - length (events st) < length ?evs"
          using i unfolding ev1 by (simp_all add: nth_append)
        have "Suc (i - length (events st)) = length ?evs"
          using only [OF j] l unfolding e by simp
        then show ?thesis using False unfolding ev1 by simp
      qed
    qed
    have c: "events ?st1 \<noteq> [] \<and> f_gt ar (snd (snd (last (events ?st1)))) tk"
      using True evne unfolding ev1 by simp
    have "(1::nat) \<le> length (epoch # rest)" by simp
    then show ?thesis using res a b J c by blast
  next
    case False
    have res: "epoch_loop ar args mb (epoch # rest) st = epoch_loop ar args mb rest ?st1"
      using rs tk kl1 False by (simp add: Let_def)
    have I: "\<forall>ev\<in>set (events ?st1). fst (snd ev) = last starts \<longrightarrow> \<not> f_gt ar (snd (snd ev)) tk"
    proof (intro ballI impI)
      fix ev assume m: "ev \<in> set (events ?st1)" and l: "fst (snd ev) = last starts"
      show "\<not> f_gt ar (snd (snd ev)) tk"
      proof (cases "ev \<in> set (events st)")
        case True
        then show ?thesis using Cons.prems l by blast
      next
        case nin: False
        then have "ev \<in> set ?evs" using m unfolding ev1 by simp
        then obtain j where j: "j < length ?evs" "?evs ! j = ev"
          by (auto simp add: in_set_conv_nth)
        then have "Suc j = length ?evs" using only [of j] l by simp
        then have "j = length ?evs - 1" by simp
        then have "ev = last ?evs" using j(2) evne by (simp add: last_conv_nth)
        then show ?thesis using False by simp
      qed
    qed
    obtain st' k where r: "epoch_loop ar args mb rest ?st1 = Inr st'" "k \<le> length rest"
        "events st' = events ?st1 @ fst (replay ar mb (whole_epochs starts (take k rest)) (learner ?st1))"
        "learner st' = snd (replay ar mb (whole_epochs starts (take k rest)) (learner ?st1))"
        "\<forall>i<length (events st').
            fst (snd (events st' ! i)) = last starts \<longrightarrow> f_gt ar (snd (snd (events st' ! i))) tk
              \<longrightarrow> Suc i = length (events st')"
        "k < length rest \<longrightarrow> events st' \<noteq> [] \<and> f_gt ar (snd (snd (last (events st')))) tk"
      using Cons.IH [OF I] by blast
    have a: "events st'
        = events st @ fst (replay ar mb (whole_epochs starts (take (Suc k) (epoch # rest))) (learner st))"
      unfolding take_Suc_Cons whole_epochs_Cons replay_append using r(3) p by simp
    have b: "learner st'
        = snd (replay ar mb (whole_epochs starts (take (Suc k) (epoch # rest))) (learner st))"
      unfolding take_Suc_Cons whole_epochs_Cons replay_append using r(4) p by simp
    have c: "Suc k < length (epoch # rest) \<longrightarrow>
                events st' \<noteq> [] \<and> f_gt ar (snd (snd (last (events st')))) tk"
      using r(6) by simp
    have k: "Suc k \<le> length (epoch # rest)" using r(2) by simp
    have "epoch_loop ar args mb (epoch # rest) st = Inr st'" using res r(1) by simp
    then show ?thesis using k a b r(5) c by blast
  qed
qed

lemma split_index_last:
  assumes "\<forall>i<length xs. P (xs ! i) \<longrightarrow> Suc i = length xs"
      and "xs = pre @ x # post" and "P x"
  shows "post = []"
proof -
  have "length pre < length xs" "xs ! length pre = x"
    using assms(2) by simp_all
  then have "Suc (length pre) = length xs" using assms(1,3) by blast
  then show ?thesis using assms(2) by simp
qed

text \<open>
  Claim C7, as amended. In an iteration with a batch that is not empty and a positive
  \<open>minibatch_size\<close>, whatever the float arithmetic: the minibatch starts are the
  multiples of \<open>minibatch_size\<close> below \<open>batch_size\<close> in increasing order; the
  optimisation phase returns; the minibatch steps that ran are exactly those of the first
  \<open>k\<close> epochs, each epoch whole, for some \<open>k\<close> up to \<open>update_epochs\<close>, each step
  run from the learner the step before it left and recorded with the mean of
  \<open>(ratio - 1) - log ratio\<close> of its own log-ratios: the loop never stops between the
  minibatches of an epoch. Without a target KL all \<open>update_epochs\<close> epochs run. The loop
  stops before \<open>update_epochs\<close> only with a target KL that the approximate KL of the
  last minibatch that ran exceeds; and with a target KL, once the last minibatch of an
  epoch has an approximate KL above it, nothing runs after that minibatch.
\<close>

theorem kl_early_stop:
  assumes "0 < minibatch_size args" and "0 < batch_size args"
  shows "\<exists>st k starts.
            range_step (batch_size args) (minibatch_size args) = Inr starts
          \<and> sorted_wrt (<) starts
          \<and> set starts = {s. s < batch_size args \<and> nat (minibatch_size args) dvd s}
          \<and> optimize ar args mb p kl0 = Inr st
          \<and> k \<le> update_epochs args
          \<and> events st = fst (replay ar mb (whole_epochs starts [0..<k]) p)
          \<and> learner st = snd (replay ar mb (whole_epochs starts [0..<k]) p)
          \<and> (target_kl args = None \<longrightarrow> k = update_epochs args)
          \<and> (k < update_epochs args \<longrightarrow>
                (\<exists>tk. target_kl args = Some tk \<and> events st \<noteq> []
                    \<and> f_gt ar (snd (snd (last (events st)))) tk))
          \<and> (\<forall>tk pre epoch kl post.
                target_kl args = Some tk \<longrightarrow> events st = pre @ (epoch, last starts, kl) # post
                  \<longrightarrow> f_gt ar kl tk \<longrightarrow> post = [])"
proof -
  obtain starts where rs: "range_step (batch_size args) (minibatch_size args) = Inr starts"
      and ne: "starts \<noteq> []" and srt: "sorted_wrt (<) starts"
      and sset: "set starts = {s. s < batch_size args \<and> nat (minibatch_size args) dvd s}"
    using range_step_ok [OF assms] by blast
  have dist: "distinct starts" using srt by (simp add: strict_sorted_iff)
  let ?st0 = "\<lparr> learner = p, approx_kl = kl0, events = [] \<rparr>"
  show ?thesis
  proof (cases "target_kl args")
    case None
    obtain st where st: "epoch_loop ar args mb [0..<update_epochs args] ?st0 = Inr st"
        "events st = events ?st0
           @ fst (replay ar mb (whole_epochs starts [0..<update_epochs args]) (learner ?st0))"
        "learner st = snd (replay ar mb (whole_epochs starts [0..<update_epochs args]) (learner ?st0))"
      using epoch_loop_none [OF rs None, of ar mb "[0..<update_epochs args]" ?st0] by blast
    have a: "optimize ar args mb p kl0 = Inr st" using st(1) by (simp add: optimize_def)
    have b: "events st = fst (replay ar mb (whole_epochs starts [0..<update_epochs args]) p)"
      using st(2) by simp
    have c: "learner st = snd (replay ar mb (whole_epochs starts [0..<update_epochs args]) p)"
      using st(3) by simp
    show ?thesis
      by (intro exI [of _ st] exI [of _ "update_epochs args"] exI [of _ starts] conjI
            rs srt sset a b c)
         (simp_all add: None)
  next
    case (Some tk)
    have I0: "\<forall>ev\<in>set (events ?st0). fst (snd ev) = last starts \<longrightarrow> \<not> f_gt ar (snd (snd ev)) tk"
      by simp
    obtain st k where st: "epoch_loop ar args mb [0..<update_epochs args] ?st0 = Inr st"
        "k \<le> length [0..<update_epochs args]"
        "events st = events ?st0
           @ fst (replay ar mb (whole_epochs starts (take k [0..<update_epochs args])) (learner ?st0))"
        "learner st
           = snd (replay ar mb (whole_epochs starts (take k [0..<update_epochs args])) (learner ?st0))"
        "\<forall>i<length (events st).
            fst (snd (events st ! i)) = last starts \<longrightarrow> f_gt ar (snd (snd (events st ! i))) tk
              \<longrightarrow> Suc i = length (events st)"
        "k < length [0..<update_epochs args] \<longrightarrow>
            events st \<noteq> [] \<and> f_gt ar (snd (snd (last (events st)))) tk"
      using epoch_loop_some [OF rs ne dist Some I0, of mb "[0..<update_epochs args]"] by blast
    have k: "k \<le> update_epochs args" using st(2) by simp
    then have tk: "take k [0..<update_epochs args] = [0..<k]" by (simp add: take_upt)
    have a: "optimize ar args mb p kl0 = Inr st" using st(1) by (simp add: optimize_def)
    have b: "events st = fst (replay ar mb (whole_epochs starts [0..<k]) p)"
      using st(3) unfolding tk by simp
    have c: "learner st = snd (replay ar mb (whole_epochs starts [0..<k]) p)"
      using st(4) unfolding tk by simp
    have d: "k < update_epochs args \<longrightarrow>
                (\<exists>tk. target_kl args = Some tk \<and> events st \<noteq> []
                    \<and> f_gt ar (snd (snd (last (events st)))) tk)"
      using st(6) Some by simp
    have e: "post = []"
      if "events st = pre @ (epoch, last starts, kl) # post" "f_gt ar kl tk" for pre epoch kl post
      by (rule split_index_last
            [where P = "\<lambda>ev. fst (snd ev) = last starts \<and> f_gt ar (snd (snd ev)) tk", OF _ that(1)])
         (use st(5) that(2) in simp_all)
    have f: "\<forall>tk pre epoch kl post.
                target_kl args = Some tk \<longrightarrow> events st = pre @ (epoch, last starts, kl) # post
                  \<longrightarrow> f_gt ar kl tk \<longrightarrow> post = []"
      using e Some by simp
    show ?thesis
      by (intro exI [of _ st] exI [of _ k] exI [of _ starts] conjI rs srt sset a b c d f k)
         (simp add: Some)
  qed
qed

theorem kl_early_stop_witness:
  "0 < minibatch_size kl_args \<and> 0 < batch_size kl_args
   \<and> range_step (batch_size kl_args) (minibatch_size kl_args) = Inr [0, 1]
   \<and> optimize exact_arith kl_args (\<lambda>epoch start p. (p, [0])) () None
       = Inr \<lparr> learner = (), approx_kl = Some 0, events = [(0, 0, 0), (0, 1, 0)] \<rparr>
   \<and> (\<exists>st k. optimize exact_arith kl_args (\<lambda>epoch start p. (p, [0])) () None = Inr st
          \<and> k \<le> update_epochs kl_args
          \<and> events st
              = fst (replay exact_arith (\<lambda>epoch start p. (p, [0])) (whole_epochs [0, 1] [0..<k]) ()))"
proof -
  have h: "0 < minibatch_size kl_args" "0 < batch_size kl_args"
    by (simp_all add: kl_args_def default_args_def)
  have r: "range_step (batch_size kl_args) (minibatch_size kl_args) = Inr [0, 1]"
    by (simp add: range_step_def kl_args_def default_args_def upt_rec)
  have kl: "approx_kl_of exact_arith [0] = 0"
    by (simp add: approx_kl_of_def exact_arith_def mean_of_def)
  have g: "f_gt exact_arith 0 (- 1)" by (simp add: exact_arith_def)
  have u: "[0..<update_epochs kl_args] = [0, 1]"
    by (simp add: kl_args_def default_args_def upt_rec)
  have t: "target_kl kl_args = Some (- 1)"
    by (simp add: kl_args_def default_args_def)
  have o: "optimize exact_arith kl_args (\<lambda>epoch start p. (p, [0])) () None
       = Inr \<lparr> learner = (), approx_kl = Some 0, events = [(0, 0, 0), (0, 1, 0)] \<rparr>"
    unfolding optimize_def u by (simp add: r t kl g Let_def)
  from kl_early_stop [OF h, of exact_arith "\<lambda>epoch start p. (p, [0])" "()" None]
  obtain st k starts where sk:
      "range_step (batch_size kl_args) (minibatch_size kl_args) = Inr starts"
      "optimize exact_arith kl_args (\<lambda>epoch start p. (p, [0])) () None = Inr st"
      "k \<le> update_epochs kl_args"
      "events st
         = fst (replay exact_arith (\<lambda>epoch start p. (p, [0])) (whole_epochs starts [0..<k]) ())"
    by (elim exE conjE)
  have "starts = [0, 1]" using sk(1) r by simp
  then have "\<exists>st k. optimize exact_arith kl_args (\<lambda>epoch start p. (p, [0])) () None = Inr st
          \<and> k \<le> update_epochs kl_args
          \<and> events st
              = fst (replay exact_arith (\<lambda>epoch start p. (p, [0])) (whole_epochs [0, 1] [0..<k]) ())"
    using sk(2,3,4) by blast
  then show ?thesis using h r o by blast
qed

text \<open>
  Not every configuration runs its epochs: with \<open>minibatch_size = 0\<close> and no target
  KL, the inner \<open>range\<close> raises \<open>ValueError\<close> in the first epoch and no minibatch
  runs.
\<close>

theorem kl_early_stop_counterexample:
  "target_kl zero_minibatch_args = None \<and> 0 < update_epochs zero_minibatch_args
   \<and> 0 < batch_size zero_minibatch_args \<and> minibatch_size zero_minibatch_args = 0
   \<and> optimize exact_arith zero_minibatch_args (\<lambda>epoch start p. (p, [0])) () None
       = Inl ValueError"
proof -
  have u: "[0..<update_epochs zero_minibatch_args] = 0 # [1..<15]"
    by (simp add: zero_minibatch_args_def default_args_def upt_conv_Cons)
  have r: "range_step (batch_size zero_minibatch_args) (minibatch_size zero_minibatch_args)
             = Inl ValueError"
    by (simp add: range_step_def zero_minibatch_args_def default_args_def)
  have o: "optimize exact_arith zero_minibatch_args (\<lambda>epoch start p. (p, [0])) () None
       = Inl ValueError"
    unfolding optimize_def u by (simp add: r)
  show ?thesis using o by (simp add: zero_minibatch_args_def default_args_def)
qed

end
